theory Spec2Isabelle
  imports Main "HOL-Library.AList" "HOL-Library.Multiset"
begin

section \<open>Data model of the combat tracker\<close>

text \<open>
  The front end keeps a combat encounter in React state. Numbers that the code
  uses as grid coordinates, hit points, initiative scores and counters are
  integers here; an optional field (\<^verbatim>\<open>field?: T\<close>) is an \<open>option\<close>, with
  \<open>None\<close> for \<^verbatim>\<open>undefined\<close>.
\<close>

text \<open>\<^verbatim>\<open>interface Combatant\<close> of the shared types.\<close>

record Combatant =
  name :: string
  initiative :: int
  initiative_bonus :: "int option"
  hp :: int
  max_hp :: int
  ac :: "int option"
  is_player :: bool
  is_npc :: "bool option"
  is_friendly :: "bool option"
  npc_id :: "string option"
  player_id :: "string option"
  player_name :: "string option"
  pc_id :: "string option"
  character_name :: "string option"
  conditions :: "string list option"
  x :: "int option"
  y :: "int option"

text \<open>\<^verbatim>\<open>interface CombatState\<close>.\<close>

record CombatState =
  round :: int
  initiative_order :: "Combatant list"
  current_turn_idx :: int
  active :: bool
  current_turn_type :: "string option"
  current_is_npc :: "bool option"

text \<open>\<^verbatim>\<open>interface GridSize\<close> and a grid cell \<^verbatim>\<open>{ x, y }\<close>, the latter as the pair \<open>(x, y)\<close>.\<close>

record GridSize =
  width :: int
  height :: int

type_synonym GridPosition = "int \<times> int"

text \<open>
  A JavaScript \<^verbatim>\<open>Map<string, { x; y }>\<close> keeps its entries in insertion order with
  unique keys. It is an association list here: \<^verbatim>\<open>set\<close> overwrites the value of a
  present key in place and appends an absent one, \<^verbatim>\<open>delete\<close> drops the key,
  \<^verbatim>\<open>get\<close> is \<open>map_of\<close>.
\<close>

type_synonym Positions = "(string \<times> GridPosition) list"

definition Map_set :: "string \<Rightarrow> GridPosition \<Rightarrow> Positions \<Rightarrow> Positions" where
  "Map_set k v m = AList.update k v m"

definition Map_delete :: "string \<Rightarrow> Positions \<Rightarrow> Positions" where
  "Map_delete k m = AList.delete k m"

definition Map_get :: "Positions \<Rightarrow> string \<Rightarrow> GridPosition option" where
  "Map_get m k = map_of m k"

text \<open>\<^verbatim>\<open>interface CombatLogEntry\<close>; \<^verbatim>\<open>id\<close> and \<^verbatim>\<open>type\<close> are renamed.\<close>

datatype LogEntryType = npc | system

record CombatLogEntry =
  entry_id :: int
  entry_type :: LogEntryType
  npcName :: "string option"
  dialogue :: "string option"
  movement :: "string option"
  action :: "string option"
  target :: "string option"
  result :: "string option"
  message :: "string option"

text \<open>
  \<^verbatim>\<open>interface NPCTurnResultItem\<close> with its \<^verbatim>\<open>npc_action\<close>. The fields \<^verbatim>\<open>action\<close>,
  \<^verbatim>\<open>narration\<close> and \<^verbatim>\<open>round\<close> carry a prefix where the name is taken. The hook
  reads the items through optional chaining, so the inner \<^verbatim>\<open>action\<close> may be
  absent here.
\<close>

record NPCActionDetail =
  action_type :: string
  action_name :: "string option"
  target_name :: "string option"
  reasoning :: string
  combat_dialogue :: "string option"

record NPCActionResult =
  npc_action_action :: "NPCActionDetail option"
  hit :: "bool option"
  damage_dealt :: "int option"
  target_new_hp :: "int option"
  npc_action_narration :: string

record NPCTurnResultItem =
  combatant_name :: string
  turn_type :: string
  turn_round :: int
  narration :: string
  npc_action :: "NPCActionResult option"

text \<open>
  The state held by the hook \<^verbatim>\<open>useCombatState\<close>: one field for each
  \<^verbatim>\<open>useState\<close> and \<^verbatim>\<open>useRef\<close> cell. The set-up roster is only ever counted and
  cleared by the operations below, so its entries are kept as combatants.
\<close>

record HookState =
  combatState :: "CombatState option"
  setupCombatants :: "Combatant list"
  isLoading :: bool
  error :: "string option"
  activeTurnName :: "string option"
  combatLog :: "CombatLogEntry list"
  logIdRef :: int
  gridSize :: GridSize
  positions :: Positions
  selectedToken :: "string option"
  pendingNPCTurnsRef :: "NPCTurnResultItem list option"

section \<open>Moving a token: \<^verbatim>\<open>moveCombatant\<close>\<close>

text \<open>
  The collision loop of \<^verbatim>\<open>moveCombatant\<close>: it walks the entries of the map and
  leaves at the first other combatant that stands on the target cell.
\<close>

fun collides :: "Positions \<Rightarrow> string \<Rightarrow> int \<Rightarrow> int \<Rightarrow> bool" where
  "collides [] nm tx ty = False"
| "collides ((existingName, pos) # rest) nm tx ty =
     (if existingName \<noteq> nm \<and> fst pos = tx \<and> snd pos = ty then True
      else collides rest nm tx ty)"

text \<open>
  The synchronous part of \<^verbatim>\<open>moveCombatant(name, x, y)\<close>. It returns the state
  after the optimistic update and, when a request was sent to the back end, the
  values the \<^verbatim>\<open>catch\<close> handler has closed over (the name and the previous
  position). The callback reads \<^verbatim>\<open>positions\<close> of the render it was created in;
  the model takes that snapshot to be the current state, which is the case
  whenever no other state update is pending.
\<close>

definition moveCombatant ::
    "string \<Rightarrow> int \<Rightarrow> int \<Rightarrow> HookState \<Rightarrow> HookState \<times> (string \<times> GridPosition option) option" where
  "moveCombatant nm tx ty st =
     (if tx < 0 \<or> tx \<ge> width (gridSize st) \<or> ty < 0 \<or> ty \<ge> height (gridSize st)
      then (st, None)
      else if collides (positions st) nm tx ty then (st, None)
      else
        let prevPos = Map_get (positions st) nm
        in (st\<lparr>positions := Map_set nm (tx, ty) (positions st), selectedToken := None\<rparr>,
            Some (nm, prevPos)))"

text \<open>The \<^verbatim>\<open>catch\<close> handler of the back-end call: revert on failure.\<close>

definition moveCombatant_catch :: "string \<Rightarrow> GridPosition option \<Rightarrow> HookState \<Rightarrow> HookState" where
  "moveCombatant_catch nm prevPos st =
     st\<lparr>positions :=
          (case prevPos of
             Some p \<Rightarrow> Map_set nm p (positions st)
           | None \<Rightarrow> Map_delete nm (positions st))\<rparr>"

text \<open>The outcome of the promise returned by \<^verbatim>\<open>combatAPI.moveCombatant\<close>.\<close>

datatype MoveReply = Fulfilled | Rejected

text \<open>
  The settling of a pending back-end call, on the state that is current when
  the promise settles: nothing is done when it is fulfilled, the \<^verbatim>\<open>catch\<close>
  handler runs when it is rejected. \<open>pending\<close> is what the handler has
  closed over.
\<close>

definition moveCombatant_reply ::
    "string \<times> GridPosition option \<Rightarrow> MoveReply \<Rightarrow> HookState \<Rightarrow> HookState" where
  "moveCombatant_reply pending reply st =
     (case reply of
        Fulfilled \<Rightarrow> st
      | Rejected \<Rightarrow> moveCombatant_catch (fst pending) (snd pending) st)"

text \<open>
  A move request whose call settles before anything else changes the state:
  the special case in which the reply is handled on the state right after the
  optimistic update.
\<close>

definition moveCombatant_settled :: "string \<Rightarrow> int \<Rightarrow> int \<Rightarrow> MoveReply \<Rightarrow> HookState \<Rightarrow> HookState" where
  "moveCombatant_settled nm tx ty reply st =
     (case moveCombatant nm tx ty st of
        (st', None) \<Rightarrow> st'
      | (st', Some pending) \<Rightarrow> moveCombatant_reply pending reply st')"

text \<open>
  The grid invariant: every key occurs once (a \<^verbatim>\<open>Map\<close>), no two combatants share
  a cell, and every cell lies in \<open>[0, width) \<times> [0, height)\<close>.
\<close>

definition in_grid :: "GridSize \<Rightarrow> GridPosition \<Rightarrow> bool" where
  "in_grid g p = (0 \<le> fst p \<and> fst p < width g \<and> 0 \<le> snd p \<and> snd p < height g)"

definition positions_valid :: "GridSize \<Rightarrow> Positions \<Rightarrow> bool" where
  "positions_valid g ps =
     (distinct (map fst ps) \<and> distinct (map snd ps) \<and> list_all (in_grid g) (map snd ps))"

section \<open>Reporting damage and healing: \<^verbatim>\<open>applyDamage\<close>, \<^verbatim>\<open>applyHealing\<close>\<close>

text \<open>
  The fields the hook reads from the replies of \<^verbatim>\<open>combatAPI.applyDamage\<close> and
  \<^verbatim>\<open>combatAPI.applyHealing\<close>. The reply to a healing request has no
  \<^verbatim>\<open>combat_ended\<close> field, and \<^verbatim>\<open>applyHealing\<close> does not read one.
\<close>

record HpReply =
  current_hp :: int
  combat_ended :: "bool option"

text \<open>
  A back-end call either throws or returns. A thrown value is \<open>Some message\<close>
  when it is an \<^verbatim>\<open>Error\<close> and \<open>None\<close> otherwise.
\<close>

type_synonym 'a ApiReply = "string option + 'a"

definition error_message :: "string option \<Rightarrow> string \<Rightarrow> string" where
  "error_message err fallback = (case err of Some m \<Rightarrow> m | None \<Rightarrow> fallback)"

text \<open>The state update shared by both callbacks: the target's \<^verbatim>\<open>hp\<close> is replaced.\<close>

definition set_target_hp :: "string \<Rightarrow> int \<Rightarrow> CombatState option \<Rightarrow> CombatState option" where
  "set_target_hp targetName new_hp prev =
     (case prev of
        None \<Rightarrow> None
      | Some p \<Rightarrow>
          Some (p\<lparr>initiative_order :=
                    map (\<lambda>c. if name c = targetName then c\<lparr>hp := new_hp\<rparr> else c)
                        (initiative_order p)\<rparr>))"

definition applyDamage :: "string \<Rightarrow> int \<Rightarrow> HpReply ApiReply \<Rightarrow> HookState \<Rightarrow> HookState" where
  "applyDamage targetName damage reply st =
     (case combatState st of
        None \<Rightarrow> st
      | Some _ \<Rightarrow>
          (case reply of
             Inl err \<Rightarrow> st\<lparr>error := Some (error_message err ''Failed to apply damage'')\<rparr>
           | Inr res \<Rightarrow>
               let st1 = st\<lparr>combatState :=
                              set_target_hp targetName (current_hp res) (combatState st)\<rparr>
               in if combat_ended res = Some True
                  then st1\<lparr>combatState := None, setupCombatants := []\<rparr>
                  else st1))"

definition applyHealing :: "string \<Rightarrow> int \<Rightarrow> HpReply ApiReply \<Rightarrow> HookState \<Rightarrow> HookState" where
  "applyHealing targetName healing reply st =
     (case combatState st of
        None \<Rightarrow> st
      | Some _ \<Rightarrow>
          (case reply of
             Inl err \<Rightarrow> st\<lparr>error := Some (error_message err ''Failed to apply healing'')\<rparr>
           | Inr res \<Rightarrow>
               st\<lparr>combatState :=
                    set_target_hp targetName (current_hp res) (combatState st)\<rparr>))"

text \<open>
  The frame of such an update, from \<open>cs\<close> to \<open>cs'\<close>: the two states differ in
  the initiative order only; the orders have the same combatants in the same
  places; each combatant keeps every field but \<^verbatim>\<open>hp\<close>; and \<^verbatim>\<open>hp\<close> is the new
  value for a combatant named as the target and the old value for every other.
\<close>

definition hp_only_update :: "string \<Rightarrow> int \<Rightarrow> CombatState \<Rightarrow> CombatState \<Rightarrow> bool" where
  "hp_only_update targetName new_hp cs cs' =
     (cs'\<lparr>initiative_order := initiative_order cs\<rparr> = cs \<and>
      list_all2
        (\<lambda>c c'. c'\<lparr>hp := hp c\<rparr> = c \<and> hp c' = (if name c = targetName then new_hp else hp c))
        (initiative_order cs) (initiative_order cs'))"

section \<open>Seeding the battle map: \<^verbatim>\<open>autoPlaceCombatants\<close>\<close>

text \<open>An optional boolean in a condition: \<^verbatim>\<open>undefined\<close> counts as false.\<close>

definition truthy :: "bool option \<Rightarrow> bool" where
  "truthy b = (b = Some True)"

definition playerSide :: "Combatant list \<Rightarrow> Combatant list" where
  "playerSide combatants = filter (\<lambda>c. is_player c \<or> truthy (is_friendly c)) combatants"

definition enemySide :: "Combatant list \<Rightarrow> Combatant list" where
  "enemySide combatants = filter (\<lambda>c. \<not> is_player c \<and> \<not> truthy (is_friendly c)) combatants"

text \<open>
  \<^verbatim>\<open>Math.max(0, Math.floor((grid.height - group.length) / 2))\<close>; on integers
  \<open>div\<close> rounds down, as \<^verbatim>\<open>Math.floor\<close> does.
\<close>

definition startRow :: "GridSize \<Rightarrow> Combatant list \<Rightarrow> int" where
  "startRow grid grp = max 0 ((height grid - int (length grp)) div 2)"

text \<open>\<^verbatim>\<open>group.forEach((c, i) => positions.set(c.name, { x: col, y: startRow + i }))\<close>\<close>

fun forEach_set :: "int \<Rightarrow> int \<Rightarrow> nat \<Rightarrow> Combatant list \<Rightarrow> Positions \<Rightarrow> Positions" where
  "forEach_set col row0 i [] ps = ps"
| "forEach_set col row0 i (c # rest) ps =
     forEach_set col row0 (Suc i) rest (Map_set (name c) (col, row0 + int i) ps)"

definition placeGroup :: "GridSize \<Rightarrow> Combatant list \<Rightarrow> int \<Rightarrow> Positions \<Rightarrow> Positions" where
  "placeGroup grid grp col ps = forEach_set col (startRow grid grp) 0 grp ps"

definition autoPlaceCombatants :: "Combatant list \<Rightarrow> GridSize \<Rightarrow> Positions" where
  "autoPlaceCombatants combatants grid =
     (let playerCol = 3;
          enemyCol = width grid - 4
      in placeGroup grid (enemySide combatants) enemyCol
           (placeGroup grid (playerSide combatants) playerCol []))"

text \<open>
  The part of \<^verbatim>\<open>startCombat\<close> that seeds the positions from the reply of the
  back end: the entries of the reply are copied into the initiative order, the
  coordinates that came with them are collected, and the combatants are placed
  locally only if none came with both coordinates.
\<close>

definition from_start_reply :: "Combatant \<Rightarrow> Combatant" where
  "from_start_reply c =
     \<lparr>name = name c, initiative = initiative c, initiative_bonus = None, hp = hp c,
      max_hp = max_hp c, ac = None, is_player = is_player c, is_npc = is_npc c,
      is_friendly = is_friendly c, npc_id = None, player_id = None, player_name = None,
      pc_id = None, character_name = None, conditions = Some [], x = x c, y = y c\<rparr>"

fun backendPositions :: "Combatant list \<Rightarrow> Positions \<times> bool \<Rightarrow> Positions \<times> bool" where
  "backendPositions [] acc = acc"
| "backendPositions (c # rest) (ps, hasBackendPositions) =
     (case (x c, y c) of
        (Some cx, Some cy) \<Rightarrow> backendPositions rest (Map_set (name c) (cx, cy) ps, True)
      | _ \<Rightarrow> backendPositions rest (ps, hasBackendPositions))"

definition seedPositions :: "Combatant list \<Rightarrow> GridSize \<Rightarrow> Positions" where
  "seedPositions reply_order grid =
     (let initiativeOrder = map from_start_reply reply_order;
          (ps, hasBackendPositions) = backendPositions reply_order ([], False)
      in if hasBackendPositions then ps else autoPlaceCombatants initiativeOrder grid)"

text \<open>
  The entries a group contributes when all names are new: the \<open>i\<close>-th member
  of the group in column \<open>col\<close>, row \<open>row0 + i\<close>.
\<close>

definition group_cells :: "int \<Rightarrow> int \<Rightarrow> nat \<Rightarrow> Combatant list \<Rightarrow> Positions" where
  "group_cells col row0 i grp =
     map (\<lambda>(j, c). (name c, (col, row0 + int j))) (enumerate i grp)"

section \<open>The local tracker: rolling initiative and starting combat\<close>

text \<open>
  The component \<^verbatim>\<open>CombatTracker\<close> that runs an encounter without the back end
  keeps the set-up roster and the combat state.
\<close>

record CombatTracker =
  tracker_combatState :: "CombatState option"
  tracker_combatants :: "Combatant list"

text \<open>\<^verbatim>\<open>c.initiative_bonus || 0\<close>\<close>

definition bonus_or_0 :: "Combatant \<Rightarrow> int" where
  "bonus_or_0 c = (case initiative_bonus c of Some b \<Rightarrow> b | None \<Rightarrow> 0)"

text \<open>
  \<^verbatim>\<open>combatants.map(c => ({...c, initiative: Math.floor(Math.random() * 20) + 1 + (c.initiative_bonus || 0)}))\<close>.
  The random source is a parameter: \<open>rolls i\<close> is the value of
  \<^verbatim>\<open>Math.floor(Math.random() * 20) + 1\<close> drawn for the \<open>i\<close>-th combatant, a number
  from 1 to 20.
\<close>

definition withInitiative :: "(nat \<Rightarrow> int) \<Rightarrow> Combatant list \<Rightarrow> Combatant list" where
  "withInitiative rolls combatants =
     map (\<lambda>(i, c). c\<lparr>initiative := rolls i + bonus_or_0 c\<rparr>) (enumerate 0 combatants)"

text \<open>
  \<^verbatim>\<open>Array.prototype.sort\<close> with a comparator is a stable sort: \<open>a\<close> goes before
  \<open>b\<close> when \<open>cmp a b < 0\<close>, after it when \<open>cmp a b > 0\<close>, and elements that
  compare equal keep their order. Any stable sort returns the same array for a
  comparator that is a weak order; insertion from the right is the one written
  here.
\<close>

fun insert_stable :: "('a \<Rightarrow> 'a \<Rightarrow> int) \<Rightarrow> 'a \<Rightarrow> 'a list \<Rightarrow> 'a list" where
  "insert_stable cmp a [] = [a]"
| "insert_stable cmp a (b # bs) =
     (if cmp a b \<le> 0 then a # b # bs else b # insert_stable cmp a bs)"

definition Array_sort :: "('a \<Rightarrow> 'a \<Rightarrow> int) \<Rightarrow> 'a list \<Rightarrow> 'a list" where
  "Array_sort cmp xs = foldr (insert_stable cmp) xs []"

text \<open>The comparator \<^verbatim>\<open>(a, b) => b.initiative - a.initiative\<close>.\<close>

definition by_initiative :: "Combatant \<Rightarrow> Combatant \<Rightarrow> int" where
  "by_initiative a b = initiative b - initiative a"

definition rollInitiative :: "(nat \<Rightarrow> int) \<Rightarrow> CombatTracker \<Rightarrow> CombatTracker" where
  "rollInitiative rolls t =
     t\<lparr>tracker_combatState :=
         Some \<lparr>round = 1,
               initiative_order = Array_sort by_initiative (withInitiative rolls (tracker_combatants t)),
               current_turn_idx = 0,
               active = True,
               current_turn_type = None,
               current_is_npc = None\<rparr>\<rparr>"

text \<open>
  \<^verbatim>\<open>CombatSetup\<close> renders the button that calls \<^verbatim>\<open>startCombat\<close> under
  \<^verbatim>\<open>setupCombatants.length >= 2\<close>; the local tracker renders its button for
  \<^verbatim>\<open>rollInitiative\<close> under the same test.
\<close>

definition start_offered :: "Combatant list \<Rightarrow> bool" where
  "start_offered roster = (length roster \<ge> 2)"

text \<open>
  The local damage and healing of this tracker:
  \<^verbatim>\<open>hp: Math.max(0, updated[index].hp - damage)\<close> and
  \<^verbatim>\<open>hp: Math.min(updated[index].max_hp, updated[index].hp + healing)\<close>.
  The index is that of a rendered card, so it is in range; reading a field of
  \<^verbatim>\<open>updated[index]\<close> beyond the end throws, which is \<open>None\<close> here.
\<close>

definition tracker_applyDamage :: "nat \<Rightarrow> int \<Rightarrow> CombatState \<Rightarrow> CombatState option" where
  "tracker_applyDamage index damage cs =
     (if index < length (initiative_order cs)
      then Some (cs\<lparr>initiative_order :=
                       (initiative_order cs)
                         [index := (initiative_order cs ! index)
                            \<lparr>hp := max 0 (hp (initiative_order cs ! index) - damage)\<rparr>]\<rparr>)
      else None)"

definition tracker_applyHealing :: "nat \<Rightarrow> int \<Rightarrow> CombatState \<Rightarrow> CombatState option" where
  "tracker_applyHealing index healing cs =
     (if index < length (initiative_order cs)
      then Some (cs\<lparr>initiative_order :=
                       (initiative_order cs)
                         [index := (initiative_order cs ! index)
                            \<lparr>hp := min (max_hp (initiative_order cs ! index))
                                        (hp (initiative_order cs ! index) + healing)\<rparr>]\<rparr>)
      else None)"

text \<open>
  The ordering the specification asks of the initiative order: scores
  descending, and of two combatants with equal scores the one with the higher
  bonus first.
\<close>

definition spec_initiative_before :: "Combatant \<Rightarrow> Combatant \<Rightarrow> bool" where
  "spec_initiative_before a b =
     (initiative a > initiative b \<or>
      (initiative a = initiative b \<and> bonus_or_0 a \<ge> bonus_or_0 b))"

definition spec_initiative_sorted :: "Combatant list \<Rightarrow> bool" where
  "spec_initiative_sorted order = sorted_wrt spec_initiative_before order"

text \<open>Scores never increase along the order.\<close>

definition scores_descending :: "Combatant list \<Rightarrow> bool" where
  "scores_descending order = sorted_wrt (\<lambda>a b. initiative a \<ge> initiative b) order"

section \<open>The combatant registry of the engine\<close>

text \<open>
  Modelled from the spec: \<^verbatim>\<open>update_hit_points(id, delta)\<close> of the Combatant
  Registry, which is part of the back end and not among the sources. The spec
  says: the hit points are updated by \<open>delta\<close> and clamped to
  \<open>[0, max_hit_points]\<close>; the operation returns the resulting value and a boolean
  \<^verbatim>\<open>became_incapacitated\<close>, true iff the update took the hit points from nonzero
  to zero; an unknown id is the error \<^verbatim>\<open>NotFound\<close>. The front end names
  combatants by \<^verbatim>\<open>name\<close>, which serves as the id.
\<close>

datatype EngineError = InvalidRoster | NotActive | NotFound | OutOfBounds | CellOccupied

record HpUpdate =
  registry :: "Combatant list"
  hit_points :: int
  became_incapacitated :: bool

definition clamp_hit_points :: "Combatant \<Rightarrow> int \<Rightarrow> int" where
  "clamp_hit_points c delta = max 0 (min (max_hp c) (hp c + delta))"

definition update_hit_points :: "Combatant list \<Rightarrow> string \<Rightarrow> int \<Rightarrow> EngineError + HpUpdate" where
  "update_hit_points reg ident delta =
     (case find (\<lambda>c. name c = ident) reg of
        None \<Rightarrow> Inl NotFound
      | Some c \<Rightarrow>
          let new_hp = clamp_hit_points c delta
          in Inr \<lparr>registry = map (\<lambda>d. if name d = ident then d\<lparr>hp := new_hp\<rparr> else d) reg,
                  hit_points = new_hp,
                  became_incapacitated = (hp c \<noteq> 0 \<and> new_hp = 0)\<rparr>)"

section \<open>Revealing a batch of NPC turns: \<^verbatim>\<open>slowRollNPCTurns\<close>\<close>

text \<open>The message handed to the \<^verbatim>\<open>onNPCTurn\<close> callback.\<close>

record NpcData =
  npcData_name :: string
  npcData_dialogue :: "string option"
  npcData_action :: string
  npcData_target :: "string option"
  npcData_result :: string

record CombatData =
  combatData_type :: string
  combatData_round :: "int option"

record ChatMessage =
  role :: string
  content :: string
  npcData :: "NpcData option"
  combatData :: "CombatData option"

text \<open>A number inside a template literal: decimal digits, with a sign if negative.\<close>

fun show_nat :: "nat \<Rightarrow> string" where
  "show_nat n =
     (if n < 10 then [''0123456789'' ! n]
      else show_nat (n div 10) @ [''0123456789'' ! (n mod 10)])"

declare show_nat.simps [simp del]

definition show_number :: "int \<Rightarrow> string" where
  "show_number i = (if i < 0 then CHR ''-'' # show_nat (nat (- i)) else show_nat (nat i))"

text \<open>
  What the hook does besides updating its state, in the order in which it
  happens: waiting (\<^verbatim>\<open>await sleep(ms)\<close>), appending an entry to the combat log,
  calling \<^verbatim>\<open>onNPCTurn\<close>, and asking the back end for the status.
\<close>

datatype Effect =
    Sleep nat
  | LogAppend CombatLogEntry
  | OnNPCTurn ChatMessage
  | GetStatus

definition NPC_TURN_DELAY :: nat where
  "NPC_TURN_DELAY = 2500"

text \<open>The two descriptions that \<^verbatim>\<open>displayNPCTurn\<close> builds.\<close>

definition actionDesc :: "NPCTurnResultItem \<Rightarrow> string" where
  "actionDesc npcTurn =
     (case npc_action npcTurn of
        None \<Rightarrow> ''''
      | Some a \<Rightarrow>
          (case npc_action_action a of
             None \<Rightarrow> ''''
           | Some act \<Rightarrow>
               (case action_name act of
                  None \<Rightarrow> action_type act
                | Some n \<Rightarrow>
                    if n \<noteq> '''' then action_type act @ '' - '' @ n else action_type act)))"

definition resultDesc :: "NPCTurnResultItem \<Rightarrow> string" where
  "resultDesc npcTurn =
     (case npc_action npcTurn of
        None \<Rightarrow> ''''
      | Some a \<Rightarrow>
          (case hit a of
             None \<Rightarrow> ''''
           | Some h \<Rightarrow>
               if h
               then ''Hit! '' @
                    show_number (case damage_dealt a of None \<Rightarrow> 0 | Some d \<Rightarrow> d) @
                    '' damage''
               else ''Miss''))"

text \<open>\<^verbatim>\<open>npcTurn.npc_action?.action?.field\<close>\<close>

definition action_field ::
    "(NPCActionDetail \<Rightarrow> string option) \<Rightarrow> NPCTurnResultItem \<Rightarrow> string option" where
  "action_field f npcTurn =
     (case npc_action npcTurn of
        None \<Rightarrow> None
      | Some a \<Rightarrow> (case npc_action_action a of None \<Rightarrow> None | Some act \<Rightarrow> f act))"

text \<open>The entry that \<^verbatim>\<open>displayNPCTurn\<close> appends, for a given id.\<close>

definition npc_log_entry :: "int \<Rightarrow> NPCTurnResultItem \<Rightarrow> CombatLogEntry" where
  "npc_log_entry ident npcTurn =
     \<lparr>entry_id = ident,
      entry_type = npc,
      npcName = Some (combatant_name npcTurn),
      dialogue = action_field combat_dialogue npcTurn,
      movement = None,
      action = Some (if actionDesc npcTurn \<noteq> '''' then actionDesc npcTurn else narration npcTurn),
      target = action_field target_name npcTurn,
      result = Some (resultDesc npcTurn),
      message = None\<rparr>"

definition npc_chat_message :: "NPCTurnResultItem \<Rightarrow> ChatMessage" where
  "npc_chat_message npcTurn =
     \<lparr>role = ''npc'',
      content = narration npcTurn,
      npcData = Some
        \<lparr>npcData_name = combatant_name npcTurn,
         npcData_dialogue = action_field combat_dialogue npcTurn,
         npcData_action =
           (if actionDesc npcTurn \<noteq> '''' then actionDesc npcTurn else narration npcTurn),
         npcData_target = action_field target_name npcTurn,
         npcData_result = resultDesc npcTurn\<rparr>,
      combatData = None\<rparr>"

text \<open>
  \<^verbatim>\<open>displayNPCTurn\<close>: the id counter is incremented and one entry is appended to
  the log; the callback is called if the component was given one.
\<close>

definition displayNPCTurn ::
    "bool \<Rightarrow> NPCTurnResultItem \<Rightarrow> HookState \<times> Effect list \<Rightarrow> HookState \<times> Effect list" where
  "displayNPCTurn onNPCTurn npcTurn = (\<lambda>(st, trace).
     let ident = logIdRef st + 1;
         entry = npc_log_entry ident npcTurn;
         st' = st\<lparr>logIdRef := ident, combatLog := combatLog st @ [entry]\<rparr>
     in (st', trace @ [LogAppend entry] @
               (if onNPCTurn then [OnNPCTurn (npc_chat_message npcTurn)] else [])))"

text \<open>
  The status of the back end: either a running combat or the plain object
  without an \<^verbatim>\<open>initiative_order\<close>.
\<close>

record CombatStatus =
  status_active :: bool
  status_round :: int
  status_current_name :: string
  status_current_turn_type :: string
  status_current_is_npc :: bool
  status_initiative_order :: "Combatant list"

datatype StatusReply = NoCombat | Status CombatStatus

text \<open>\<^verbatim>\<open>Array.prototype.findIndex\<close>: the first index that satisfies the test, or -1.\<close>

fun findIndex :: "('a \<Rightarrow> bool) \<Rightarrow> 'a list \<Rightarrow> int" where
  "findIndex P [] = - 1"
| "findIndex P (a # rest) =
     (if P a then 0 else (let r = findIndex P rest in if r < 0 then - 1 else r + 1))"

definition from_status :: "Combatant \<Rightarrow> Combatant" where
  "from_status c =
     \<lparr>name = name c, initiative = initiative c, initiative_bonus = None, hp = hp c,
      max_hp = max_hp c, ac = None, is_player = is_player c, is_npc = is_npc c,
      is_friendly = None, npc_id = None, player_id = None, player_name = None,
      pc_id = None, character_name = None,
      conditions = Some (case conditions c of None \<Rightarrow> [] | Some cs \<Rightarrow> cs),
      x = None, y = None\<rparr>"

text \<open>The best-effort refresh after each revealed turn; a failed call is ignored.\<close>

definition refresh_after_turn :: "StatusReply ApiReply \<Rightarrow> HookState \<Rightarrow> HookState" where
  "refresh_after_turn reply st =
     (case reply of
        Inl _ \<Rightarrow> st
      | Inr NoCombat \<Rightarrow> st
      | Inr (Status status) \<Rightarrow>
          let initiativeOrder = map from_status (status_initiative_order status);
              currentIdx = findIndex (\<lambda>c. name c = status_current_name status) initiativeOrder
          in st\<lparr>combatState :=
                  Some \<lparr>round = status_round status,
                        initiative_order = initiativeOrder,
                        current_turn_idx = (if currentIdx \<ge> 0 then currentIdx else 0),
                        active = status_active status,
                        current_turn_type = Some (status_current_turn_type status),
                        current_is_npc = Some (status_current_is_npc status)\<rparr>\<rparr>)"

text \<open>
  The loop of \<^verbatim>\<open>slowRollNPCTurns\<close> from index \<open>i\<close> on. \<open>statuses i\<close> is the
  reply to the status request of round \<open>i\<close>.
\<close>

fun slowRoll_from ::
    "bool \<Rightarrow> (nat \<Rightarrow> StatusReply ApiReply) \<Rightarrow> nat \<Rightarrow> NPCTurnResultItem list \<Rightarrow>
     HookState \<times> Effect list \<Rightarrow> HookState \<times> Effect list" where
  "slowRoll_from onNPCTurn statuses i [] acc = acc"
| "slowRoll_from onNPCTurn statuses i (npcTurn # rest) (st, trace) =
     (let st1 = st\<lparr>activeTurnName := Some (combatant_name npcTurn)\<rparr>;
          trace1 = (if i > 0 then trace @ [Sleep NPC_TURN_DELAY] else trace);
          (st2, trace2) = displayNPCTurn onNPCTurn npcTurn (st1, trace1);
          st3 = refresh_after_turn (statuses i) st2
      in slowRoll_from onNPCTurn statuses (Suc i) rest (st3, trace2 @ [GetStatus]))"

definition slowRollNPCTurns ::
    "bool \<Rightarrow> (nat \<Rightarrow> StatusReply ApiReply) \<Rightarrow> NPCTurnResultItem list \<Rightarrow> HookState \<Rightarrow>
     HookState \<times> Effect list" where
  "slowRollNPCTurns onNPCTurn statuses npcTurns st =
     (let (st', trace) = slowRoll_from onNPCTurn statuses 0 npcTurns (st, [])
      in (st'\<lparr>activeTurnName := None\<rparr>, trace))"

text \<open>
  The log entries of a batch whose first id is \<open>first\<close>, and the pacing of
  their reveal: the first entry at once, every later one after one delay.
\<close>

definition batch_entries :: "int \<Rightarrow> NPCTurnResultItem list \<Rightarrow> CombatLogEntry list" where
  "batch_entries first npcTurns =
     map (\<lambda>(i, t). npc_log_entry (first + int i) t) (enumerate 0 npcTurns)"

definition delayed :: "CombatLogEntry list \<Rightarrow> Effect list" where
  "delayed entries = concat (map (\<lambda>e. [Sleep NPC_TURN_DELAY, LogAppend e]) entries)"

definition reveal_schedule :: "CombatLogEntry list \<Rightarrow> Effect list" where
  "reveal_schedule entries =
     (case entries of [] \<Rightarrow> [] | e # rest \<Rightarrow> LogAppend e # delayed rest)"

definition is_pacing :: "Effect \<Rightarrow> bool" where
  "is_pacing e = (case e of Sleep _ \<Rightarrow> True | LogAppend _ \<Rightarrow> True | _ \<Rightarrow> False)"

section \<open>The NPC turn resolver of the engine\<close>

text \<open>
  Modelled from the spec: \<^verbatim>\<open>resolve_until_player_or_end(session)\<close> of the NPC Turn
  Resolver, which is part of the back end and not among the sources. The spec
  says: it repeatedly calls \<^verbatim>\<open>resolve_one\<close> and \<^verbatim>\<open>advance()\<close> as long as the current
  turn is AI-controlled and the session is active, accumulating an ordered list
  of turn results, and returns the full batch at once, without any delay. The
  session and its operations are parameters. The loop need not end (an
  encounter of AI combatants only that never finishes), so it runs on fuel, and
  \<open>None\<close> means that the fuel ran out.
\<close>

record 's Engine =
  current_is_ai :: "'s \<Rightarrow> bool"
  session_active :: "'s \<Rightarrow> bool"
  resolve_one :: "'s \<Rightarrow> 's \<times> NPCTurnResultItem"
  advance :: "'s \<Rightarrow> 's"

definition continues :: "'s Engine \<Rightarrow> 's \<Rightarrow> bool" where
  "continues eng s = (session_active eng s \<and> current_is_ai eng s)"

fun resolve_until_player_or_end ::
    "'s Engine \<Rightarrow> nat \<Rightarrow> 's \<Rightarrow> NPCTurnResultItem list \<Rightarrow> ('s \<times> NPCTurnResultItem list) option" where
  "resolve_until_player_or_end eng 0 s results = None"
| "resolve_until_player_or_end eng (Suc fuel) s results =
     (if continues eng s
      then let (s1, r) = resolve_one eng s
           in resolve_until_player_or_end eng fuel (advance eng s1) (results @ [r])
      else Some (s, results))"

text \<open>The session after \<open>k\<close> resolved turns, and the result of the next one.\<close>

fun session_after :: "'s Engine \<Rightarrow> 's \<Rightarrow> nat \<Rightarrow> 's" where
  "session_after eng s 0 = s"
| "session_after eng s (Suc k) = session_after eng (advance eng (fst (resolve_one eng s))) k"

definition turn_result :: "'s Engine \<Rightarrow> 's \<Rightarrow> nat \<Rightarrow> NPCTurnResultItem" where
  "turn_result eng s k = snd (resolve_one eng (session_after eng s k))"

section \<open>Starting combat in the hook: \<^verbatim>\<open>startCombat\<close>\<close>

text \<open>A string in a condition: \<^verbatim>\<open>undefined\<close> and the empty string count as false.\<close>

definition str_truthy :: "string option \<Rightarrow> bool" where
  "str_truthy s = (case s of None \<Rightarrow> False | Some v \<Rightarrow> v \<noteq> '''')"

text \<open>
  The request that \<^verbatim>\<open>startCombat\<close> builds from the set-up roster: three lists,
  each a filter of the roster followed by a copy of some fields. The fields not
  copied are \<open>None\<close> in the copy, except \<^verbatim>\<open>initiative\<close> and \<^verbatim>\<open>is_player\<close>,
  which are not optional in the record; the request does not carry either.
  An AI-controlled entry without an \<^verbatim>\<open>npc_id\<close> is in none of the lists.
\<close>

record StartRequest =
  request_players :: "Combatant list"
  request_npcs :: "Combatant list"
  request_monsters :: "Combatant list"
  auto_npc_turns :: bool

definition player_entry :: "Combatant \<Rightarrow> Combatant" where
  "player_entry c =
     c\<lparr>is_npc := None, is_friendly := None, npc_id := None, character_name := None,
       conditions := None, x := None, y := None\<rparr>"

definition npc_entry :: "Combatant \<Rightarrow> Combatant" where
  "npc_entry c =
     c\<lparr>is_npc := None, player_id := None, player_name := None, pc_id := None,
       character_name := None, conditions := None, x := None, y := None\<rparr>"

definition monster_entry :: "Combatant \<Rightarrow> Combatant" where
  "monster_entry c =
     c\<lparr>is_npc := None, is_friendly := None, npc_id := None, player_id := None,
       player_name := None, pc_id := None, character_name := None, conditions := None,
       x := None, y := None\<rparr>"

definition start_request :: "Combatant list \<Rightarrow> StartRequest" where
  "start_request setup =
     \<lparr>request_players = map player_entry (filter is_player setup),
      request_npcs =
        map npc_entry (filter (\<lambda>c. truthy (is_npc c) \<and> str_truthy (npc_id c)) setup),
      request_monsters =
        map monster_entry (filter (\<lambda>c. \<not> is_player c \<and> \<not> truthy (is_npc c)) setup),
      auto_npc_turns = True\<rparr>"

text \<open>The reply of \<^verbatim>\<open>combatAPI.start\<close>.\<close>

record StartReply =
  combat_started :: bool
  start_round :: int
  start_initiative_order :: "Combatant list"
  current_turn :: string
  start_current_is_npc :: bool
  grid_width :: int
  grid_height :: int
  npc_turn_results :: "NPCTurnResultItem list option"

text \<open>
  \<^verbatim>\<open>emitCombatMessage(type, content, round)\<close>: a system entry in the combat log,
  and a message to \<^verbatim>\<open>onNPCTurn\<close> if the component was given one.
\<close>

definition emitCombatMessage ::
    "bool \<Rightarrow> string \<Rightarrow> string \<Rightarrow> int option \<Rightarrow> HookState \<times> Effect list \<Rightarrow>
     HookState \<times> Effect list" where
  "emitCombatMessage onNPCTurn ty msg rnd = (\<lambda>(st, trace).
     let ident = logIdRef st + 1;
         entry = \<lparr>entry_id = ident, entry_type = system, npcName = None, dialogue = None,
                  movement = None, action = None, target = None, result = None,
                  message = Some msg\<rparr>;
         st' = st\<lparr>logIdRef := ident, combatLog := combatLog st @ [entry]\<rparr>
     in (st', trace @ [LogAppend entry] @
               (if onNPCTurn
                then [OnNPCTurn \<lparr>role = ''combat'', content = msg, npcData = None,
                        combatData = Some \<lparr>combatData_type = ty, combatData_round = rnd\<rparr>\<rparr>]
                else [])))"

text \<open>
  \<^verbatim>\<open>startCombat\<close>, given the outcome of \<^verbatim>\<open>combatAPI.start\<close> for the request built
  from the set-up roster. A combat state is stored, with \<^verbatim>\<open>active: true\<close>, only
  after a reply; a thrown value is stored as the error and nothing else is
  changed but the cleared log. The hook itself checks nothing about the roster.
\<close>

definition startCombat ::
    "bool \<Rightarrow> StartReply ApiReply \<Rightarrow> HookState \<Rightarrow> HookState \<times> Effect list" where
  "startCombat onNPCTurn reply st =
     (let st0 = st\<lparr>isLoading := True, error := None, combatLog := []\<rparr>;
          (st1, trace) =
            (case reply of
               Inl err \<Rightarrow>
                 (st0\<lparr>error := Some (error_message err ''Failed to start combat'')\<rparr>, [])
             | Inr res \<Rightarrow>
                 let initiativeOrder = map from_start_reply (start_initiative_order res);
                     currentIdx = findIndex (\<lambda>c. name c = current_turn res) initiativeOrder;
                     st2 = st0\<lparr>combatState :=
                                  Some \<lparr>round = start_round res,
                                        initiative_order = initiativeOrder,
                                        current_turn_idx = (if currentIdx \<ge> 0 then currentIdx else 0),
                                        active = True,
                                        current_turn_type = None,
                                        current_is_npc = Some (start_current_is_npc res)\<rparr>,
                              positions := seedPositions (start_initiative_order res) (gridSize st0),
                              selectedToken := None\<rparr>;
                     (st3, tr) =
                       emitCombatMessage onNPCTurn ''round_start''
                         (''Combat begins! Round '' @ show_number (start_round res))
                         (Some (start_round res)) (st2, [])
                 in (case npc_turn_results res of
                       Some (t # ts) \<Rightarrow> (st3\<lparr>pendingNPCTurnsRef := Some (t # ts)\<rparr>, tr)
                     | _ \<Rightarrow> (st3, tr)))
      in (if pendingNPCTurnsRef st1 = None then st1\<lparr>isLoading := False\<rparr> else st1, trace))"

section \<open>Starting combat in the engine\<close>

text \<open>
  Modelled from the spec: \<^verbatim>\<open>start(roster, grid_size)\<close> of the Turn State Machine,
  which is part of the back end and not among the sources, and the transport
  layer between the hook and it. The spec says: a combatant has a team, one of
  \<^verbatim>\<open>player\<close>, \<^verbatim>\<open>hostile\<close>, \<^verbatim>\<open>friendly_npc\<close> and \<^verbatim>\<open>dm_monster\<close>, where players and
  friendly NPCs stand against hostiles and monsters; \<^verbatim>\<open>start\<close> requires the
  \<^verbatim>\<open>Setup\<close> state and a roster of at least 2 combatants spanning at least two
  opposing teams, else it fails with \<^verbatim>\<open>InvalidRoster\<close>; errors are surfaced to
  the caller unchanged. What a successful start produces (the initiative order,
  the seeded positions) is the parameter \<open>started\<close>. The roster is read off the
  request list by list; the message of a surfaced error is taken to be its name.
\<close>

datatype Team = player | hostile | friendly_npc | dm_monster

datatype Phase = Setup | Active | Ended

definition roster_of_request :: "StartRequest \<Rightarrow> (Team \<times> Combatant) list" where
  "roster_of_request req =
     map (\<lambda>c. (player, c)) (request_players req) @
     map (\<lambda>c. (if truthy (is_friendly c) then friendly_npc else hostile, c)) (request_npcs req) @
     map (\<lambda>c. (dm_monster, c)) (request_monsters req)"

definition on_player_side :: "Team \<Rightarrow> bool" where
  "on_player_side t = (t = player \<or> t = friendly_npc)"

definition spans_opposing_teams :: "(Team \<times> Combatant) list \<Rightarrow> bool" where
  "spans_opposing_teams roster =
     (list_ex (\<lambda>(t, c). on_player_side t) roster \<and>
      list_ex (\<lambda>(t, c). \<not> on_player_side t) roster)"

definition start :: "Phase \<Rightarrow> (Team \<times> Combatant) list \<Rightarrow> StartReply \<Rightarrow> EngineError + StartReply" where
  "start phase roster started =
     (if phase = Setup \<and> length roster \<ge> 2 \<and> spans_opposing_teams roster
      then Inr started
      else Inl InvalidRoster)"

definition error_name :: "EngineError \<Rightarrow> string" where
  "error_name e =
     (case e of
        InvalidRoster \<Rightarrow> ''InvalidRoster''
      | NotActive \<Rightarrow> ''NotActive''
      | NotFound \<Rightarrow> ''NotFound''
      | OutOfBounds \<Rightarrow> ''OutOfBounds''
      | CellOccupied \<Rightarrow> ''CellOccupied'')"

definition surfaced :: "EngineError + 'a \<Rightarrow> 'a ApiReply" where
  "surfaced r = (case r of Inl e \<Rightarrow> Inl (Some (error_name e)) | Inr v \<Rightarrow> Inr v)"

text \<open>
  A press of the start button of \<^verbatim>\<open>CombatSetup\<close>, answered by the engine: the
  request built from the set-up roster goes to \<^verbatim>\<open>start\<close> of a session in the
  \<^verbatim>\<open>Setup\<close> state, and \<^verbatim>\<open>startCombat\<close> handles what comes back.
\<close>

definition engine_roster :: "HookState \<Rightarrow> (Team \<times> Combatant) list" where
  "engine_roster st = roster_of_request (start_request (setupCombatants st))"

definition start_pressed :: "bool \<Rightarrow> StartReply \<Rightarrow> HookState \<Rightarrow> HookState \<times> Effect list" where
  "start_pressed onNPCTurn started st =
     startCombat onNPCTurn (surfaced (start Setup (engine_roster st) started)) st"

section \<open>Concrete encounters\<close>

text \<open>
  A running encounter on the default grid of 20 by 15 cells: one player
  character and two goblins, placed, with nothing selected.
\<close>

definition combatant :: "string \<Rightarrow> int option \<Rightarrow> int \<Rightarrow> int \<Rightarrow> bool \<Rightarrow> Combatant" where
  "combatant nm bonus h mh pl =
     \<lparr>name = nm, initiative = 0, initiative_bonus = bonus, hp = h, max_hp = mh,
      ac = None, is_player = pl, is_npc = None, is_friendly = None, npc_id = None,
      player_id = None, player_name = None, pc_id = None, character_name = None,
      conditions = Some [], x = None, y = None\<rparr>"

definition DEFAULT_GRID :: GridSize where
  "DEFAULT_GRID = \<lparr>width = 20, height = 15\<rparr>"

definition party :: "Combatant list" where
  "party = [combatant ''Aria'' (Some 2) 24 24 True,
            combatant ''Goblin 1'' None 7 7 False,
            combatant ''Goblin 2'' None 7 7 False]"

definition encounter :: HookState where
  "encounter =
     \<lparr>combatState = Some \<lparr>round = 1, initiative_order = party, current_turn_idx = 0,
                           active = True, current_turn_type = None, current_is_npc = Some False\<rparr>,
      setupCombatants = [],
      isLoading = False,
      error = None,
      activeTurnName = None,
      combatLog = [],
      logIdRef = 0,
      gridSize = DEFAULT_GRID,
      positions = [(''Aria'', (3, 7)), (''Goblin 1'', (16, 6)), (''Goblin 2'', (16, 7))],
      selectedToken = Some ''Aria'',
      pendingNPCTurnsRef = None\<rparr>"

text \<open>
  Two combatants that tie on the score with different bonuses: the first rolls
  12 with no bonus, the second rolls 10 with a bonus of 2.
\<close>

definition tied_pair :: "Combatant list" where
  "tied_pair = [combatant ''Brakk'' None 11 11 False, combatant ''Aria'' (Some 2) 24 24 True]"

definition tied_rolls :: "nat \<Rightarrow> int" where
  "tied_rolls i = [12, 10, 10] ! i"

text \<open>A roster of two player characters and nobody to fight.\<close>

definition two_players :: "Combatant list" where
  "two_players = [combatant ''Aria'' (Some 2) 24 24 True, combatant ''Bren'' (Some 1) 30 30 True]"

definition setup_tied_pair :: CombatTracker where
  "setup_tied_pair = \<lparr>tracker_combatState = None, tracker_combatants = tied_pair\<rparr>"

text \<open>
  A batch of two goblin turns, a hit and a miss, and a session that is simply
  the list of the AI turns still to come before the player's.
\<close>

definition goblin_hit :: NPCTurnResultItem where
  "goblin_hit =
     \<lparr>combatant_name = ''Goblin 1'', turn_type = ''npc'', turn_round = 1,
      narration = ''Goblin 1 slashes at Aria.'',
      npc_action = Some
        \<lparr>npc_action_action = Some
           \<lparr>action_type = ''attack'', action_name = Some ''Scimitar'',
            target_name = Some ''Aria'', reasoning = ''closest foe'',
            combat_dialogue = None\<rparr>,
         hit = Some True, damage_dealt = Some 5, target_new_hp = Some 19,
         npc_action_narration = ''''\<rparr>\<rparr>"

definition goblin_miss :: NPCTurnResultItem where
  "goblin_miss =
     \<lparr>combatant_name = ''Goblin 2'', turn_type = ''npc'', turn_round = 1,
      narration = ''Goblin 2 swings wide.'',
      npc_action = Some
        \<lparr>npc_action_action = Some
           \<lparr>action_type = ''attack'', action_name = None,
            target_name = Some ''Aria'', reasoning = ''follow the leader'',
            combat_dialogue = Some ''Get her!''\<rparr>,
         hit = Some False, damage_dealt = None, target_new_hp = None,
         npc_action_narration = ''''\<rparr>\<rparr>"

definition queue_engine :: "NPCTurnResultItem list Engine" where
  "queue_engine =
     \<lparr>current_is_ai = (\<lambda>s. s \<noteq> []),
      session_active = (\<lambda>s. True),
      resolve_one = (\<lambda>s. (s, hd s)),
      advance = tl\<rparr>"

definition no_status :: "nat \<Rightarrow> StatusReply ApiReply" where
  "no_status i = Inl None"



text \<open>
  A horde of sixteen goblins, one more than the default grid has rows, and a
  player character who shares his name with a monster.
\<close>

definition goblin :: "string \<Rightarrow> Combatant" where
  "goblin n = combatant (''Goblin '' @ n) None 7 7 False"

definition horde :: "Combatant list" where
  "horde = map goblin [''Ag'', ''Bok'', ''Crik'', ''Dak'', ''Eg'', ''Fum'', ''Gash'', ''Hob'',
                       ''Irk'', ''Jub'', ''Krag'', ''Lug'', ''Mog'', ''Nib'', ''Ork'', ''Pug'']"

definition namesakes :: "Combatant list" where
  "namesakes = [combatant ''Bob'' (Some 1) 20 20 True, combatant ''Bob'' None 7 7 False]"

text \<open>
  The hook in the set-up phase, with the party as roster and with the two
  player characters alone, and what the engine answers for the party.
\<close>

definition setup_hook :: "Combatant list \<Rightarrow> HookState" where
  "setup_hook roster =
     \<lparr>combatState = None, setupCombatants = roster, isLoading = False, error = None,
      activeTurnName = None, combatLog = [], logIdRef = 0, gridSize = DEFAULT_GRID,
      positions = [], selectedToken = None, pendingNPCTurnsRef = None\<rparr>"

definition party_started :: StartReply where
  "party_started =
     \<lparr>combat_started = True, start_round = 1,
      start_initiative_order = withInitiative tied_rolls party,
      current_turn = ''Aria'', start_current_is_npc = False,
      grid_width = 20, grid_height = 15, npc_turn_results = None\<rparr>"

section \<open>Properties of \<^verbatim>\<open>moveCombatant\<close>\<close>

lemma collides_iff:
  "collides ps nm tx ty \<longleftrightarrow> (\<exists>(n, p) \<in> set ps. n \<noteq> nm \<and> p = (tx, ty))"
  by (induction ps nm tx ty rule: collides.induct) (auto simp: prod_eq_iff)

lemma map_of_None_keys: "map_of ps k = None \<Longrightarrow> k \<notin> fst ` set ps"
  by (simp add: map_of_eq_None_iff)



lemma revert_absent:
  "map_of ps nm = None \<Longrightarrow> AList.delete nm (AList.update nm v ps) = ps"
  using map_of_None_keys [of ps nm] by (simp add: delete_update_same)

lemma moveCombatant_rejected_positions:
  "positions (moveCombatant_settled nm tx ty Rejected st) = positions st"
  by (simp add: moveCombatant_settled_def moveCombatant_reply_def moveCombatant_def moveCombatant_catch_def
      Map_set_def Map_delete_def Map_get_def Let_def update_triv revert_absent
      split: option.splits)


lemma moveCombatant_fulfilled:
  "moveCombatant_settled nm tx ty Fulfilled st = fst (moveCombatant nm tx ty st)"
  by (simp add: moveCombatant_settled_def moveCombatant_reply_def split: prod.splits option.splits)











lemma moveCombatant_catch_position:
  "Map_get (positions (moveCombatant_catch nm prevPos st)) nm = prevPos"
  "n \<noteq> nm \<Longrightarrow> Map_get (positions (moveCombatant_catch nm prevPos st)) n = Map_get (positions st) n"
  by (simp_all add: moveCombatant_catch_def Map_get_def Map_set_def Map_delete_def
      update_conv' delete_conv' split: option.splits)

text \<open>
  C2. A move that passes the local checks is applied at once: before the back
  end answers, the combatant already stands on the new cell, and the handler of
  the pending call holds the previous position. If the call fails, the positions
  are exactly those before the move (the previous cell restored, or the entry
  removed when the combatant had none); if it succeeds, the optimistic positions
  stay. Whatever state the failure handler runs on, it puts the combatant back
  on its previous cell (or removes it) and touches no other combatant.
\<close>

theorem moveCombatant_optimistic_then_rollback:
  "(in_grid (gridSize st) (tx, ty) \<and> \<not> collides (positions st) nm tx ty \<longrightarrow>
      Map_get (positions (fst (moveCombatant nm tx ty st))) nm = Some (tx, ty) \<and>
      snd (moveCombatant nm tx ty st) = Some (nm, Map_get (positions st) nm) \<and>
      positions (moveCombatant_catch nm (Map_get (positions st) nm)
                   (fst (moveCombatant nm tx ty st))) = positions st) \<and>
   positions (moveCombatant_settled nm tx ty Rejected st) = positions st \<and>
   positions (moveCombatant_settled nm tx ty Fulfilled st) =
     positions (fst (moveCombatant nm tx ty st)) \<and>
   Map_get (positions (moveCombatant_catch nm prevPos later)) nm = prevPos \<and>
   (n \<noteq> nm \<longrightarrow>
      Map_get (positions (moveCombatant_catch nm prevPos later)) n = Map_get (positions later) n)"
proof (intro conjI impI)
  assume "in_grid (gridSize st) (tx, ty) \<and> \<not> collides (positions st) nm tx ty"
  then have m: "moveCombatant nm tx ty st =
      (st\<lparr>positions := Map_set nm (tx, ty) (positions st), selectedToken := None\<rparr>,
       Some (nm, Map_get (positions st) nm))"
    by (auto simp: moveCombatant_def in_grid_def Let_def)
  show "Map_get (positions (fst (moveCombatant nm tx ty st))) nm = Some (tx, ty)"
    by (simp add: m Map_get_def Map_set_def update_conv')
  show "snd (moveCombatant nm tx ty st) = Some (nm, Map_get (positions st) nm)"
    by (simp add: m)
  have "positions (moveCombatant_settled nm tx ty Rejected st) = positions st"
    by (rule moveCombatant_rejected_positions)
  then show "positions (moveCombatant_catch nm (Map_get (positions st) nm)
                   (fst (moveCombatant nm tx ty st))) = positions st"
    by (simp add: moveCombatant_settled_def moveCombatant_reply_def m)
next
  show "positions (moveCombatant_settled nm tx ty Rejected st) = positions st"
    by (rule moveCombatant_rejected_positions)
  show "positions (moveCombatant_settled nm tx ty Fulfilled st) =
     positions (fst (moveCombatant nm tx ty st))"
    by (simp add: moveCombatant_fulfilled)
  show "Map_get (positions (moveCombatant_catch nm prevPos later)) nm = prevPos"
    by (rule moveCombatant_catch_position)
next
  assume "n \<noteq> nm"
  then show "Map_get (positions (moveCombatant_catch nm prevPos later)) n = Map_get (positions later) n"
    by (rule moveCombatant_catch_position)
qed

theorem moveCombatant_optimistic_then_rollback_witness:
  "in_grid (gridSize encounter) (4, 7) \<and> collides (positions encounter) ''Aria'' 4 7 = False \<and>
   Map_get (positions (fst (moveCombatant ''Aria'' 4 7 encounter))) ''Aria'' = Some (4, 7) \<and>
   snd (moveCombatant ''Aria'' 4 7 encounter) = Some (''Aria'', Some (3, 7)) \<and>
   positions (moveCombatant_settled ''Aria'' 4 7 Rejected encounter) =
     [(''Aria'', (3, 7)), (''Goblin 1'', (16, 6)), (''Goblin 2'', (16, 7))] \<and>
   Map_get (positions (moveCombatant_catch ''Aria'' None encounter)) ''Goblin 1'' = Some (16, 6)"
proof -
  have g: "in_grid (gridSize encounter) (4, 7)"
    by (simp add: encounter_def DEFAULT_GRID_def in_grid_def)
  have c: "\<not> collides (positions encounter) ''Aria'' 4 7"
    by (simp add: encounter_def)
  have p: "Map_get (positions encounter) ''Aria'' = Some (3, 7)"
    "Map_get (positions encounter) ''Goblin 1'' = Some (16, 6)"
    "positions encounter = [(''Aria'', (3, 7)), (''Goblin 1'', (16, 6)), (''Goblin 2'', (16, 7))]"
    by (simp_all add: encounter_def Map_get_def)
  have d: "''Goblin 1'' \<noteq> ''Aria''" by simp
  from moveCombatant_optimistic_then_rollback
      [of encounter 4 7 "''Aria''" None encounter "''Goblin 1''"] g c p d
  show ?thesis by simp
qed

lemma own_cell_passes:
  assumes v: "positions_valid g ps" and m: "map_of ps nm = Some (tx, ty)"
  shows "in_grid g (tx, ty) \<and> \<not> collides ps nm tx ty"
proof -
  from m have mem: "(nm, (tx, ty)) \<in> set ps" by (rule map_of_SomeD)
  from v have "\<forall>p \<in> snd ` set ps. in_grid g p"
    by (simp add: positions_valid_def list_all_iff)
  with mem have g: "in_grid g (tx, ty)" by force
  from v have inj: "inj_on snd (set ps)"
    by (simp add: positions_valid_def distinct_map)
  have "\<not> collides ps nm tx ty"
  proof
    assume "collides ps nm tx ty"
    then obtain n where n: "(n, (tx, ty)) \<in> set ps" "n \<noteq> nm"
      by (auto simp: collides_iff)
    have "(n, (tx, ty)) = (nm, (tx, ty))"
      using inj_onD [OF inj _ n(1) mem] by simp
    with n(2) show False by simp
  qed
  with g show ?thesis by simp
qed

text \<open>
  C8. Moving a combatant onto the cell it already occupies changes no position:
  the positions after the optimistic update and after the back-end call has
  settled (either way) are the positions before. From a state that satisfies the
  grid invariant the request passes the bounds and collision checks like any
  other move, and is sent to the back end.
\<close>

theorem moveCombatant_same_cell_unchanged:
  assumes "Map_get (positions st) nm = Some (tx, ty)"
  shows "positions (fst (moveCombatant nm tx ty st)) = positions st \<and>
         positions (moveCombatant_settled nm tx ty reply st) = positions st \<and>
         (positions_valid (gridSize st) (positions st) \<longrightarrow>
            snd (moveCombatant nm tx ty st) = Some (nm, Some (tx, ty)))"
proof -
  from assms have m: "map_of (positions st) nm = Some (tx, ty)"
    by (simp add: Map_get_def)
  then have same: "Map_set nm (tx, ty) (positions st) = positions st"
    by (simp add: Map_set_def update_triv)
  have opt: "positions (fst (moveCombatant nm tx ty st)) = positions st"
    by (simp add: moveCombatant_def Let_def same)
  have "positions (moveCombatant_settled nm tx ty reply st) = positions st"
    by (cases reply) (simp_all add: moveCombatant_rejected_positions moveCombatant_fulfilled opt)
  moreover have "snd (moveCombatant nm tx ty st) = Some (nm, Some (tx, ty))"
    if "positions_valid (gridSize st) (positions st)"
    using own_cell_passes [OF that m] assms
    by (auto simp: moveCombatant_def in_grid_def Let_def)
  ultimately show ?thesis using opt by simp
qed

theorem moveCombatant_same_cell_unchanged_witness:
  "Map_get (positions encounter) ''Goblin 1'' = Some (16, 6) \<and>
   positions_valid (gridSize encounter) (positions encounter) \<and>
   positions (moveCombatant_settled ''Goblin 1'' 16 6 Fulfilled encounter) = positions encounter \<and>
   snd (moveCombatant ''Goblin 1'' 16 6 encounter) = Some (''Goblin 1'', Some (16, 6))"
proof -
  have m: "Map_get (positions encounter) ''Goblin 1'' = Some (16, 6)"
    by (simp add: encounter_def Map_get_def)
  have v: "positions_valid (gridSize encounter) (positions encounter)"
    by (simp add: positions_valid_def encounter_def DEFAULT_GRID_def in_grid_def)
  from moveCombatant_same_cell_unchanged [OF m, of Fulfilled] m v
  show ?thesis by simp
qed

section \<open>Properties of \<^verbatim>\<open>applyDamage\<close> and \<^verbatim>\<open>applyHealing\<close>\<close>

lemma set_target_hp_frame:
  "\<exists>cs'. set_target_hp t v (Some cs) = Some cs' \<and> hp_only_update t v cs cs'"
  by (simp add: set_target_hp_def hp_only_update_def list_all2_conv_all_nth)

lemma applyDamage_positions: "positions (applyDamage t d reply st) = positions st"
  by (simp add: applyDamage_def Let_def split: option.splits sum.splits)

lemma applyHealing_positions: "positions (applyHealing t h reply st) = positions st"
  by (simp add: applyHealing_def split: option.splits sum.splits)

text \<open>
  C9. While a combat is tracked, a successful damage or healing report changes
  only the \<^verbatim>\<open>hp\<close> of the combatants named as the target: the new combat state
  differs from the old one in the initiative order only (round, turn index and
  the other fields are kept), every combatant keeps all its other fields, every
  combatant with another name is kept whole, and all other cells of the hook,
  the positions among them, are as before. The exception is a damage reply that
  reports the end of combat, which clears the combat state (and the set-up
  roster); the positions are kept then too, as they are after a failed call.
\<close>

theorem applyDamage_applyHealing_frame:
  assumes "combatState st = Some cs"
  shows "(combat_ended res \<noteq> Some True \<longrightarrow>
            (\<exists>cs'. combatState (applyDamage t d (Inr res) st) = Some cs' \<and>
                   hp_only_update t (current_hp res) cs cs') \<and>
            (applyDamage t d (Inr res) st)\<lparr>combatState := combatState st\<rparr> = st) \<and>
         (combat_ended res = Some True \<longrightarrow>
            combatState (applyDamage t d (Inr res) st) = None) \<and>
         (\<exists>cs'. combatState (applyHealing t h (Inr res) st) = Some cs' \<and>
                hp_only_update t (current_hp res) cs cs') \<and>
         (applyHealing t h (Inr res) st)\<lparr>combatState := combatState st\<rparr> = st \<and>
         positions (applyDamage t d reply st) = positions st \<and>
         positions (applyHealing t h reply st) = positions st"
proof -
  from set_target_hp_frame [of t "current_hp res" cs]
  obtain cs' where cs': "set_target_hp t (current_hp res) (Some cs) = Some cs'"
    "hp_only_update t (current_hp res) cs cs'" by blast
  have d: "combat_ended res \<noteq> Some True \<Longrightarrow>
      applyDamage t d (Inr res) st = st\<lparr>combatState := Some cs'\<rparr>"
    using assms cs'(1) by (simp add: applyDamage_def Let_def)
  have e: "combat_ended res = Some True \<Longrightarrow> combatState (applyDamage t d (Inr res) st) = None"
    using assms by (simp add: applyDamage_def Let_def)
  have h: "applyHealing t h (Inr res) st = st\<lparr>combatState := Some cs'\<rparr>"
    using assms cs'(1) by (simp add: applyHealing_def)
  show ?thesis
    using d e h cs'(2) assms by (simp add: applyDamage_positions applyHealing_positions)
qed

theorem applyDamage_applyHealing_frame_witness:
  "combatState encounter = Some \<lparr>round = 1, initiative_order = party, current_turn_idx = 0,
      active = True, current_turn_type = None, current_is_npc = Some False\<rparr> \<and>
   combat_ended \<lparr>current_hp = 2, combat_ended = None\<rparr> \<noteq> Some True \<and>
   combatState (applyDamage ''Goblin 1'' 5 (Inr \<lparr>current_hp = 2, combat_ended = None\<rparr>) encounter) =
     Some \<lparr>round = 1,
           initiative_order = [combatant ''Aria'' (Some 2) 24 24 True,
                               combatant ''Goblin 1'' None 2 7 False,
                               combatant ''Goblin 2'' None 7 7 False],
           current_turn_idx = 0,
           active = True, current_turn_type = None, current_is_npc = Some False\<rparr> \<and>
   combat_ended \<lparr>current_hp = 0, combat_ended = Some True\<rparr> = Some True \<and>
   combatState (applyDamage ''Goblin 1'' 9
      (Inr \<lparr>current_hp = 0, combat_ended = Some True\<rparr>) encounter) = None \<and>
   positions (applyDamage ''Goblin 1'' 9
      (Inr \<lparr>current_hp = 0, combat_ended = Some True\<rparr>) encounter) = positions encounter"
proof -
  have c: "combatState encounter = Some \<lparr>round = 1, initiative_order = party,
      current_turn_idx = 0, active = True, current_turn_type = None, current_is_npc = Some False\<rparr>"
    by (simp add: encounter_def)
  have v: "combatState (applyDamage ''Goblin 1'' 5 (Inr \<lparr>current_hp = 2, combat_ended = None\<rparr>) encounter) =
     Some \<lparr>round = 1,
           initiative_order = [combatant ''Aria'' (Some 2) 24 24 True,
                               combatant ''Goblin 1'' None 2 7 False,
                               combatant ''Goblin 2'' None 7 7 False],
           current_turn_idx = 0,
           active = True, current_turn_type = None, current_is_npc = Some False\<rparr>"
    by (simp add: applyDamage_def encounter_def set_target_hp_def party_def combatant_def)
  from applyDamage_applyHealing_frame [OF c, of "\<lparr>current_hp = 2, combat_ended = None\<rparr>"
      "''Goblin 1''" 5 1 "Inr \<lparr>current_hp = 0, combat_ended = Some True\<rparr>"]
    applyDamage_applyHealing_frame [OF c, of "\<lparr>current_hp = 0, combat_ended = Some True\<rparr>"
      "''Goblin 1''" 9 1 "Inr \<lparr>current_hp = 0, combat_ended = Some True\<rparr>"] c v
  show ?thesis by simp
qed

section \<open>Properties of \<^verbatim>\<open>autoPlaceCombatants\<close>\<close>

lemma update_fresh: "k \<notin> fst ` set ps \<Longrightarrow> AList.update k v ps = ps @ [(k, v)]"
  by (induction ps) auto

lemma fst_group_cells: "map fst (group_cells col row0 i grp) = map name grp"
  by (induction grp arbitrary: i) (simp_all add: group_cells_def)

lemma forEach_set_fresh:
  "distinct (map name grp) \<Longrightarrow> name ` set grp \<inter> fst ` set ps = {} \<Longrightarrow>
   forEach_set col row0 i grp ps = ps @ group_cells col row0 i grp"
proof (induction grp arbitrary: i ps)
  case Nil
  then show ?case by (simp add: group_cells_def)
next
  case (Cons c rest)
  from Cons.prems have fresh: "name c \<notin> fst ` set ps" by auto
  let ?ps = "ps @ [(name c, (col, row0 + int i))]"
  have step: "Map_set (name c) (col, row0 + int i) ps = ?ps"
    using fresh by (simp add: Map_set_def update_fresh)
  from Cons.prems have "distinct (map name rest)" "name ` set rest \<inter> fst ` set ?ps = {}"
    by auto
  then have "forEach_set col row0 (Suc i) rest ?ps = ?ps @ group_cells col row0 (Suc i) rest"
    by (rule Cons.IH)
  then show ?case by (simp add: step group_cells_def)
qed

lemma sides_distinct:
  assumes "distinct (map name cs)"
  shows "distinct (map name (playerSide cs))" "distinct (map name (enemySide cs))"
    "name ` set (enemySide cs) \<inter> name ` set (playerSide cs) = {}"
proof -
  show "distinct (map name (playerSide cs))" "distinct (map name (enemySide cs))"
    using assms by (simp_all add: playerSide_def enemySide_def distinct_map_filter)
  from assms have "inj_on name (set cs)" by (simp add: distinct_map)
  then show "name ` set (enemySide cs) \<inter> name ` set (playerSide cs) = {}"
    by (auto simp: playerSide_def enemySide_def dest: inj_onD)
qed

lemma autoPlaceCombatants_explicit:
  assumes "distinct (map name cs)"
  shows "autoPlaceCombatants cs grid =
           group_cells 3 (startRow grid (playerSide cs)) 0 (playerSide cs) @
           group_cells (width grid - 4) (startRow grid (enemySide cs)) 0 (enemySide cs)"
proof -
  note d = sides_distinct [OF assms]
  have p: "placeGroup grid (playerSide cs) 3 [] =
      group_cells 3 (startRow grid (playerSide cs)) 0 (playerSide cs)"
    using forEach_set_fresh [OF d(1), of "[]"] by (simp add: placeGroup_def)
  have "name ` set (enemySide cs) \<inter>
      fst ` set (group_cells 3 (startRow grid (playerSide cs)) 0 (playerSide cs)) = {}"
    using d(3) fst_group_cells [of 3 "startRow grid (playerSide cs)" 0 "playerSide cs"]
    by (metis list.set_map)
  from forEach_set_fresh [OF d(2) this] show ?thesis
    by (simp add: autoPlaceCombatants_def placeGroup_def p [unfolded placeGroup_def] Let_def)
qed

lemma group_cells_nth:
  "i < length grp \<Longrightarrow>
   group_cells col row0 k grp ! i = (name (grp ! i), (col, row0 + int (k + i)))"
  by (simp add: group_cells_def nth_enumerate_eq)

lemma length_group_cells [simp]: "length (group_cells col row0 k grp) = length grp"
  by (simp add: group_cells_def)

lemma snd_group_cells:
  "map snd (group_cells col row0 k grp) = map (\<lambda>j. (col, row0 + int j)) [k ..< k + length grp]"
proof (induction grp arbitrary: k)
  case Nil
  then show ?case by (simp add: group_cells_def)
next
  case (Cons c rest)
  have "[k ..< k + length (c # rest)] = k # [Suc k ..< Suc k + length rest]"
    by (subst upt_rec) simp
  with Cons.IH [of "Suc k"] show ?case by (simp add: group_cells_def)
qed

lemma distinct_snd_group_cells: "distinct (map snd (group_cells col row0 k grp))"
  by (simp add: snd_group_cells distinct_map inj_on_def)

lemma startRow_fits:
  assumes "int (length grp) \<le> height grid" and "j < length grp"
  shows "0 \<le> startRow grid grp + int j" and "startRow grid grp + int j < height grid"
  using assms by (simp_all add: startRow_def)

lemma group_cells_in_grid:
  assumes "0 \<le> col" "col < width grid" "int (length grp) \<le> height grid"
  shows "list_all (in_grid grid) (map snd (group_cells col (startRow grid grp) 0 grp))"
  using assms startRow_fits [of grp grid]
  by (auto simp: snd_group_cells list_all_iff in_grid_def)

lemma autoPlaceCombatants_lookup:
  assumes d: "distinct (map name cs)"
  shows "i < length (playerSide cs) \<Longrightarrow>
           Map_get (autoPlaceCombatants cs grid) (name (playerSide cs ! i)) =
             Some (3, startRow grid (playerSide cs) + int i)"
    and "i < length (enemySide cs) \<Longrightarrow>
           Map_get (autoPlaceCombatants cs grid) (name (enemySide cs ! i)) =
             Some (width grid - 4, startRow grid (enemySide cs) + int i)"
proof -
  let ?A = "group_cells 3 (startRow grid (playerSide cs)) 0 (playerSide cs)"
  let ?B = "group_cells (width grid - 4) (startRow grid (enemySide cs)) 0 (enemySide cs)"
  note s = sides_distinct [OF d]
  have eq: "autoPlaceCombatants cs grid = ?A @ ?B"
    using d by (rule autoPlaceCombatants_explicit)
  have keys: "distinct (map fst (?A @ ?B))"
    using s by (auto simp: fst_group_cells)
  show "Map_get (autoPlaceCombatants cs grid) (name (playerSide cs ! i)) =
      Some (3, startRow grid (playerSide cs) + int i)" if "i < length (playerSide cs)"
  proof -
    from that have "?A ! i \<in> set ?A" by simp
    with that have "(name (playerSide cs ! i), (3, startRow grid (playerSide cs) + int i)) \<in> set (?A @ ?B)"
      by (simp add: group_cells_nth)
    then show ?thesis by (simp only: eq Map_get_def map_of_eq_Some_iff [OF keys])
  qed
  show "Map_get (autoPlaceCombatants cs grid) (name (enemySide cs ! i)) =
      Some (width grid - 4, startRow grid (enemySide cs) + int i)" if "i < length (enemySide cs)"
  proof -
    from that have "?B ! i \<in> set ?B" by simp
    with that have "(name (enemySide cs ! i), (width grid - 4, startRow grid (enemySide cs) + int i))
        \<in> set (?A @ ?B)"
      by (simp add: group_cells_nth)
    then show ?thesis by (simp only: eq Map_get_def map_of_eq_Some_iff [OF keys])
  qed
qed

lemma length_sides: "length (playerSide cs) + length (enemySide cs) = length cs"
  using sum_length_filter_compl [of "\<lambda>c. is_player c \<or> truthy (is_friendly c)" cs]
  by (simp add: playerSide_def enemySide_def)

lemma autoPlaceCombatants_positions_valid:
  assumes d: "distinct (map name cs)" and w: "8 \<le> width grid"
    and p: "int (length (playerSide cs)) \<le> height grid"
    and e: "int (length (enemySide cs)) \<le> height grid"
  shows "positions_valid grid (autoPlaceCombatants cs grid)"
proof -
  let ?A = "group_cells 3 (startRow grid (playerSide cs)) 0 (playerSide cs)"
  let ?B = "group_cells (width grid - 4) (startRow grid (enemySide cs)) 0 (enemySide cs)"
  note s = sides_distinct [OF d]
  have eq: "autoPlaceCombatants cs grid = ?A @ ?B"
    using d by (rule autoPlaceCombatants_explicit)
  have keys: "distinct (map fst (?A @ ?B))"
    using s by (auto simp: fst_group_cells)
  have "set (map snd ?A) \<inter> set (map snd ?B) = {}"
    using w by (auto simp: snd_group_cells)
  then have cells: "distinct (map snd (?A @ ?B))"
    by (simp add: distinct_snd_group_cells)
  have "list_all (in_grid grid) (map snd ?A)" "list_all (in_grid grid) (map snd ?B)"
    using w p e by (simp_all add: group_cells_in_grid)
  then have "list_all (in_grid grid) (map snd (?A @ ?B))" by simp
  with keys cells show ?thesis by (simp only: eq positions_valid_def simp_thms)
qed

text \<open>
  C10. For a roster with pairwise distinct names, on a grid at least 8 columns
  wide on which neither side has more members than there are rows,
  \<^verbatim>\<open>autoPlaceCombatants\<close> returns a map with one entry for each combatant, all
  cells inside the grid and no cell used twice; the cell of a player-side
  combatant (player or friendly) is in column 3 and that of any other in column
  \<open>width - 4\<close>.
\<close>

theorem autoPlaceCombatants_valid_placement:
  assumes "distinct (map name cs)" and "8 \<le> width grid"
    and "int (length (playerSide cs)) \<le> height grid"
    and "int (length (enemySide cs)) \<le> height grid"
  shows "positions_valid grid (autoPlaceCombatants cs grid) \<and>
         length (autoPlaceCombatants cs grid) = length cs \<and>
         (\<forall>c \<in> set cs. \<exists>cell.
            Map_get (autoPlaceCombatants cs grid) (name c) = Some cell \<and>
            in_grid grid cell \<and>
            fst cell = (if is_player c \<or> truthy (is_friendly c) then 3 else width grid - 4))"
proof -
  let ?res = "autoPlaceCombatants cs grid"
  have v: "positions_valid grid ?res"
    using assms by (rule autoPlaceCombatants_positions_valid)
  have len: "length ?res = length cs"
    using assms(1) by (simp add: autoPlaceCombatants_explicit length_sides)
  have cell: "\<exists>cell. Map_get ?res (name c) = Some cell \<and> in_grid grid cell \<and>
      fst cell = (if is_player c \<or> truthy (is_friendly c) then 3 else width grid - 4)"
    if c: "c \<in> set cs" for c
  proof (cases "is_player c \<or> truthy (is_friendly c)")
    case True
    with c have "c \<in> set (playerSide cs)" by (simp add: playerSide_def)
    then obtain i where i: "i < length (playerSide cs)" "playerSide cs ! i = c"
      by (auto simp: in_set_conv_nth)
    from autoPlaceCombatants_lookup(1) [OF assms(1) i(1), of grid] i(2)
    have g: "Map_get ?res (name c) = Some (3, startRow grid (playerSide cs) + int i)" by simp
    have "in_grid grid (3, startRow grid (playerSide cs) + int i)"
      using startRow_fits [OF assms(3) i(1)] assms(2) by (simp add: in_grid_def)
    with g True show ?thesis by simp
  next
    case False
    with c have "c \<in> set (enemySide cs)" by (simp add: enemySide_def)
    then obtain i where i: "i < length (enemySide cs)" "enemySide cs ! i = c"
      by (auto simp: in_set_conv_nth)
    from autoPlaceCombatants_lookup(2) [OF assms(1) i(1), of grid] i(2)
    have g: "Map_get ?res (name c) = Some (width grid - 4, startRow grid (enemySide cs) + int i)"
      by simp
    have "in_grid grid (width grid - 4, startRow grid (enemySide cs) + int i)"
      using startRow_fits [OF assms(4) i(1)] assms(2) by (simp add: in_grid_def)
    with g False show ?thesis by simp
  qed
  from v len cell show ?thesis by blast
qed

lemma autoPlace_party:
  "autoPlaceCombatants party DEFAULT_GRID =
     [(''Aria'', (3, 7)), (''Goblin 1'', (16, 6)), (''Goblin 2'', (16, 7))]"
  by (simp add: autoPlaceCombatants_def placeGroup_def playerSide_def enemySide_def
      startRow_def party_def combatant_def DEFAULT_GRID_def truthy_def Map_set_def)

theorem autoPlaceCombatants_valid_placement_witness:
  "distinct (map name party) \<and> 8 \<le> width DEFAULT_GRID \<and>
   int (length (playerSide party)) \<le> height DEFAULT_GRID \<and>
   int (length (enemySide party)) \<le> height DEFAULT_GRID \<and>
   autoPlaceCombatants party DEFAULT_GRID =
     [(''Aria'', (3, 7)), (''Goblin 1'', (16, 6)), (''Goblin 2'', (16, 7))] \<and>
   positions_valid DEFAULT_GRID (autoPlaceCombatants party DEFAULT_GRID) \<and>
   length (autoPlaceCombatants party DEFAULT_GRID) = length party"
proof -
  have h: "distinct (map name party)" "8 \<le> width DEFAULT_GRID"
    "int (length (playerSide party)) \<le> height DEFAULT_GRID"
    "int (length (enemySide party)) \<le> height DEFAULT_GRID"
    by (simp_all add: party_def combatant_def DEFAULT_GRID_def playerSide_def enemySide_def
        truthy_def)
  from autoPlaceCombatants_valid_placement [OF h] h autoPlace_party
  show ?thesis by simp
qed

lemma forEach_set_names:
  "map name grp = map name grp' \<Longrightarrow>
   forEach_set col row0 i grp ps = forEach_set col row0 i grp' ps"
proof (induction grp arbitrary: grp' i ps)
  case Nil
  then show ?case by simp
next
  case (Cons c rest)
  then obtain c' rest' where g: "grp' = c' # rest'" by (cases grp') auto
  with Cons.prems have "name c = name c'" "map name rest = map name rest'" by simp_all
  with Cons.IH [of rest'] show ?case by (simp add: g)
qed

lemma sides_names:
  assumes "map (\<lambda>c. (name c, is_player c \<or> truthy (is_friendly c))) cs =
           map (\<lambda>c. (name c, is_player c \<or> truthy (is_friendly c))) cs'"
  shows "map name (playerSide cs) = map name (playerSide cs')"
    and "map name (enemySide cs) = map name (enemySide cs')"
  using assms
proof (induction cs arbitrary: cs')
  case Nil
  { case 1 then show ?case by (simp add: playerSide_def) }
  { case 2 then show ?case by (simp add: enemySide_def) }
next
  case (Cons c rest)
  { case 1
    then obtain c' rest' where g: "cs' = c' # rest'" by (cases cs') auto
    with 1 Cons.IH(1) [of rest'] show ?case by (auto simp: playerSide_def) }
  { case 2
    then obtain c' rest' where g: "cs' = c' # rest'" by (cases cs') auto
    with 2 Cons.IH(2) [of rest'] show ?case by (auto simp: enemySide_def) }
qed

lemma autoPlaceCombatants_by_order:
  assumes "map (\<lambda>c. (name c, is_player c \<or> truthy (is_friendly c))) cs =
           map (\<lambda>c. (name c, is_player c \<or> truthy (is_friendly c))) cs'"
  shows "autoPlaceCombatants cs grid = autoPlaceCombatants cs' grid"
proof -
  note n = sides_names [OF assms]
  from n have l: "length (playerSide cs) = length (playerSide cs')"
    "length (enemySide cs) = length (enemySide cs')"
    by (metis length_map)+
  have "\<And>col ps. placeGroup grid (playerSide cs) col ps = placeGroup grid (playerSide cs') col ps"
    using forEach_set_names [OF n(1)] l(1) by (simp add: placeGroup_def startRow_def)
  moreover
  have "\<And>col ps. placeGroup grid (enemySide cs) col ps = placeGroup grid (enemySide cs') col ps"
    using forEach_set_names [OF n(2)] l(2) by (simp add: placeGroup_def startRow_def)
  ultimately show ?thesis by (simp add: autoPlaceCombatants_def)
qed

lemma backendPositions_none:
  "\<forall>c \<in> set cs. x c = None \<or> y c = None \<Longrightarrow> backendPositions cs (ps, has) = (ps, has)"
  by (induction cs) (auto split: option.splits)

lemma seedPositions_auto:
  assumes "\<forall>c \<in> set cs. x c = None \<or> y c = None"
  shows "seedPositions cs grid = autoPlaceCombatants cs grid"
proof -
  have "autoPlaceCombatants (map from_start_reply cs) grid = autoPlaceCombatants cs grid"
    by (rule autoPlaceCombatants_by_order) (simp add: from_start_reply_def)
  with backendPositions_none [OF assms] show ?thesis
    by (simp add: seedPositions_def)
qed

lemma startRow_centred:
  assumes "int (length grp) \<le> height grid"
  shows "startRow grid grp \<le> height grid - (startRow grid grp + int (length grp))"
    and "height grid - (startRow grid grp + int (length grp)) \<le> startRow grid grp + 1"
  using assms by (simp_all add: startRow_def)

text \<open>
  C6, as the code has it. When no entry of the start reply carries both
  coordinates, the positions are seeded by \<^verbatim>\<open>autoPlaceCombatants\<close> on the
  initiative order of that reply. With pairwise distinct names, the \<open>i\<close>-th
  player-side combatant of the order stands in column 3 and the \<open>i\<close>-th
  combatant of the other side in column \<open>width - 4\<close>, each in row
  \<open>startRow + i\<close> of its side, where \<open>startRow\<close> is
  \<open>max 0 ((height - size) div 2)\<close>. A side with no more members than the grid has
  rows lies inside the rows of the grid and is centred: the free rows below it
  are as many as those above it, or one more. The placement is a function of
  the order of names and sides in the initiative order alone: two orders that
  agree on these are placed alike.
\<close>

theorem seedPositions_auto_placement:
  assumes "distinct (map name cs)" and "\<forall>c \<in> set cs. x c = None \<or> y c = None"
  shows "seedPositions cs grid = autoPlaceCombatants cs grid \<and>
         (\<forall>i < length (playerSide cs).
            Map_get (seedPositions cs grid) (name (playerSide cs ! i)) =
              Some (3, startRow grid (playerSide cs) + int i)) \<and>
         (\<forall>i < length (enemySide cs).
            Map_get (seedPositions cs grid) (name (enemySide cs ! i)) =
              Some (width grid - 4, startRow grid (enemySide cs) + int i)) \<and>
         (\<forall>grp \<in> {playerSide cs, enemySide cs}.
            int (length grp) \<le> height grid \<longrightarrow>
              startRow grid grp \<le> height grid - (startRow grid grp + int (length grp)) \<and>
              height grid - (startRow grid grp + int (length grp)) \<le> startRow grid grp + 1 \<and>
              (\<forall>i < length grp.
                 0 \<le> startRow grid grp + int i \<and> startRow grid grp + int i < height grid)) \<and>
         (map (\<lambda>c. (name c, is_player c \<or> truthy (is_friendly c))) cs' =
          map (\<lambda>c. (name c, is_player c \<or> truthy (is_friendly c))) cs \<longrightarrow>
            autoPlaceCombatants cs' grid = autoPlaceCombatants cs grid)"
proof -
  have s: "seedPositions cs grid = autoPlaceCombatants cs grid"
    using assms(2) by (rule seedPositions_auto)
  have c: "\<forall>grp \<in> {playerSide cs, enemySide cs}.
            int (length grp) \<le> height grid \<longrightarrow>
              startRow grid grp \<le> height grid - (startRow grid grp + int (length grp)) \<and>
              height grid - (startRow grid grp + int (length grp)) \<le> startRow grid grp + 1 \<and>
              (\<forall>i < length grp.
                 0 \<le> startRow grid grp + int i \<and> startRow grid grp + int i < height grid)"
    using startRow_centred startRow_fits by blast
  have o: "map (\<lambda>c. (name c, is_player c \<or> truthy (is_friendly c))) cs' =
          map (\<lambda>c. (name c, is_player c \<or> truthy (is_friendly c))) cs \<longrightarrow>
            autoPlaceCombatants cs' grid = autoPlaceCombatants cs grid"
    using autoPlaceCombatants_by_order by blast
  from s c o autoPlaceCombatants_lookup [OF assms(1), of _ grid] show ?thesis
    by (simp only: simp_thms) simp
qed

theorem seedPositions_auto_placement_witness:
  "distinct (map name party) \<and> list_all (\<lambda>c. x c = None \<or> y c = None) party \<and>
   seedPositions party DEFAULT_GRID =
     [(''Aria'', (3, 7)), (''Goblin 1'', (16, 6)), (''Goblin 2'', (16, 7))] \<and>
   length (enemySide party) = 2 \<and> startRow DEFAULT_GRID (enemySide party) = 6 \<and>
   height DEFAULT_GRID - (startRow DEFAULT_GRID (enemySide party) + 2) = 7"
proof -
  have h: "distinct (map name party)" "\<forall>c \<in> set party. x c = None \<or> y c = None"
    by (simp_all add: party_def combatant_def)
  have e: "length (enemySide party) = 2" "startRow DEFAULT_GRID (enemySide party) = 6"
    "height DEFAULT_GRID - (startRow DEFAULT_GRID (enemySide party) + 2) = 7"
    by (simp_all add: party_def combatant_def enemySide_def truthy_def startRow_def
        DEFAULT_GRID_def)
  from h(2) have l: "list_all (\<lambda>c. x c = None \<or> y c = None) party"
    by (simp only: list_all_iff)
  from seedPositions_auto_placement [OF h, of DEFAULT_GRID party] h(1) l e autoPlace_party
  show ?thesis by simp
qed

lemma seed_party:
  "seedPositions party DEFAULT_GRID =
     [(''Aria'', (3, 7)), (''Goblin 1'', (16, 6)), (''Goblin 2'', (16, 7))]"
  by (simp add: seedPositions_def from_start_reply_def autoPlaceCombatants_def placeGroup_def
      playerSide_def enemySide_def startRow_def party_def combatant_def DEFAULT_GRID_def
      truthy_def Map_set_def)

lemma seed_horde:
  "Map_get (seedPositions horde DEFAULT_GRID) ''Goblin Pug'' = Some (16, 15)"
  "startRow DEFAULT_GRID (enemySide horde) = 0"
  "length (enemySide horde) = 16"
  by (simp_all add: seedPositions_def from_start_reply_def autoPlaceCombatants_def placeGroup_def
      playerSide_def enemySide_def startRow_def horde_def goblin_def combatant_def
      DEFAULT_GRID_def truthy_def Map_set_def Map_get_def)

lemma seed_namesakes:
  "seedPositions namesakes DEFAULT_GRID = [(''Bob'', (16, 7))]"
  "playerSide namesakes = [combatant ''Bob'' (Some 1) 20 20 True]"
  by (simp_all add: seedPositions_def from_start_reply_def autoPlaceCombatants_def placeGroup_def
      playerSide_def enemySide_def startRow_def namesakes_def combatant_def
      DEFAULT_GRID_def truthy_def Map_set_def)

text \<open>
  C6, as the specification states it, fails in three ways. On the default grid
  of 20 by 15 cells the party is placed in columns 3 and 16, not on the edges
  (columns 0 and 19). A side of sixteen starts in row 0 and its last member
  gets row 15, below the grid, so the side is neither centred nor on the map.
  And a player character who shares his name with a monster has no cell of his
  own: the one entry under that name is in the monsters' column.
\<close>

theorem seedPositions_auto_placement_counterexample:
  "seedPositions party DEFAULT_GRID =
     [(''Aria'', (3, 7)), (''Goblin 1'', (16, 6)), (''Goblin 2'', (16, 7))] \<and>
   width DEFAULT_GRID = 20 \<and> height DEFAULT_GRID = 15 \<and>
   length (enemySide horde) = 16 \<and>
   startRow DEFAULT_GRID (enemySide horde) = 0 \<and>
   Map_get (seedPositions horde DEFAULT_GRID) ''Goblin Pug'' = Some (16, 15) \<and>
   \<not> in_grid DEFAULT_GRID (16, 15) \<and>
   playerSide namesakes = [combatant ''Bob'' (Some 1) 20 20 True] \<and>
   seedPositions namesakes DEFAULT_GRID = [(''Bob'', (16, 7))]"
proof -
  have g: "width DEFAULT_GRID = 20" "height DEFAULT_GRID = 15" "\<not> in_grid DEFAULT_GRID (16, 15)"
    by (simp_all add: in_grid_def DEFAULT_GRID_def)
  from g seed_party seed_horde seed_namesakes show ?thesis by (simp only: simp_thms)
qed

section \<open>Properties of \<^verbatim>\<open>rollInitiative\<close>\<close>

lemma mset_insert_stable: "mset (insert_stable cmp a xs) = add_mset a (mset xs)"
  by (induction xs) auto

lemma mset_Array_sort: "mset (Array_sort cmp xs) = mset xs"
  by (induction xs) (simp_all add: Array_sort_def mset_insert_stable)

lemma set_insert_stable: "set (insert_stable cmp a xs) = insert a (set xs)"
  using mset_insert_stable [of cmp a xs] by (metis set_mset_add_mset_insert set_mset_mset)

lemma descending_insert_stable:
  "scores_descending xs \<Longrightarrow> scores_descending (insert_stable by_initiative a xs)"
  unfolding scores_descending_def
  by (induction xs) (auto simp: set_insert_stable by_initiative_def)

lemma descending_Array_sort: "scores_descending (Array_sort by_initiative xs)"
proof (induction xs)
  case Nil
  show ?case by (simp add: Array_sort_def scores_descending_def)
next
  case (Cons a xs)
  then show ?case
    using descending_insert_stable [of "Array_sort by_initiative xs" a]
    by (simp add: Array_sort_def)
qed

lemma filter_insert_stable:
  "scores_descending xs \<Longrightarrow>
   filter (\<lambda>c. initiative c = k) (insert_stable by_initiative a xs) =
     (if initiative a = k then a # filter (\<lambda>c. initiative c = k) xs
      else filter (\<lambda>c. initiative c = k) xs)"
  unfolding scores_descending_def
  by (induction xs) (auto simp: by_initiative_def)

lemma filter_Array_sort:
  "filter (\<lambda>c. initiative c = k) (Array_sort by_initiative xs) = filter (\<lambda>c. initiative c = k) xs"
proof (induction xs)
  case Nil
  show ?case by (simp add: Array_sort_def)
next
  case (Cons a xs)
  have "Array_sort by_initiative (a # xs) = insert_stable by_initiative a (Array_sort by_initiative xs)"
    by (simp add: Array_sort_def)
  with Cons show ?case
    by (simp add: filter_insert_stable [OF descending_Array_sort])
qed

lemma withInitiative_nth:
  "i < length cs \<Longrightarrow> withInitiative rolls cs ! i = (cs ! i)\<lparr>initiative := rolls i + bonus_or_0 (cs ! i)\<rparr>"
  by (simp add: withInitiative_def nth_enumerate_eq)

text \<open>
  C3, as the code has it. The initiative order that \<^verbatim>\<open>rollInitiative\<close> stores
  holds the roster with the score \<open>roll + bonus\<close> written into each combatant
  (a missing bonus counts as 0); it is a rearrangement of these, scores never
  increase along it, and the combatants of any one score stand in roster order,
  whatever their bonuses. The order is a function of the rolls and the roster.
\<close>

theorem rollInitiative_sorted_stable:
  assumes "tracker_combatState (rollInitiative rolls t) = Some cs"
  shows "scores_descending (initiative_order cs) \<and>
         mset (initiative_order cs) = mset (withInitiative rolls (tracker_combatants t)) \<and>
         (\<forall>k. filter (\<lambda>c. initiative c = k) (initiative_order cs) =
              filter (\<lambda>c. initiative c = k) (withInitiative rolls (tracker_combatants t))) \<and>
         (\<forall>i < length (tracker_combatants t).
            withInitiative rolls (tracker_combatants t) ! i =
              (tracker_combatants t ! i)
                \<lparr>initiative := rolls i + bonus_or_0 (tracker_combatants t ! i)\<rparr>)"
proof -
  from assms have
    "initiative_order cs = Array_sort by_initiative (withInitiative rolls (tracker_combatants t))"
    by (auto simp: rollInitiative_def)
  then show ?thesis
    by (simp add: descending_Array_sort mset_Array_sort filter_Array_sort withInitiative_nth)
qed

lemma rollInitiative_tied_pair:
  "tracker_combatState (rollInitiative tied_rolls setup_tied_pair) =
     Some \<lparr>round = 1,
           initiative_order = [(combatant ''Brakk'' None 11 11 False)\<lparr>initiative := 12\<rparr>,
                               (combatant ''Aria'' (Some 2) 24 24 True)\<lparr>initiative := 12\<rparr>],
           current_turn_idx = 0, active = True, current_turn_type = None,
           current_is_npc = None\<rparr>"
  by (simp add: rollInitiative_def setup_tied_pair_def tied_pair_def tied_rolls_def
      withInitiative_def Array_sort_def by_initiative_def bonus_or_0_def combatant_def)

theorem rollInitiative_sorted_stable_witness:
  "tracker_combatState (rollInitiative tied_rolls setup_tied_pair) =
     Some \<lparr>round = 1,
           initiative_order = [(combatant ''Brakk'' None 11 11 False)\<lparr>initiative := 12\<rparr>,
                               (combatant ''Aria'' (Some 2) 24 24 True)\<lparr>initiative := 12\<rparr>],
           current_turn_idx = 0, active = True, current_turn_type = None,
           current_is_npc = None\<rparr> \<and>
   scores_descending [(combatant ''Brakk'' None 11 11 False)\<lparr>initiative := 12\<rparr>,
                      (combatant ''Aria'' (Some 2) 24 24 True)\<lparr>initiative := 12\<rparr>]"
  using rollInitiative_sorted_stable [OF rollInitiative_tied_pair] rollInitiative_tied_pair
  by simp

text \<open>
  C3, as the specification states it, fails: with rolls 12 and 10 the roster
  Brakk (no bonus), Aria (bonus 2) ties at 12, and the stored order keeps Brakk
  first, although Aria has the higher bonus.
\<close>

theorem rollInitiative_tie_break_counterexample:
  "map_option initiative_order (tracker_combatState (rollInitiative tied_rolls setup_tied_pair)) =
     Some [(combatant ''Brakk'' None 11 11 False)\<lparr>initiative := 12\<rparr>,
           (combatant ''Aria'' (Some 2) 24 24 True)\<lparr>initiative := 12\<rparr>] \<and>
   \<not> spec_initiative_sorted [(combatant ''Brakk'' None 11 11 False)\<lparr>initiative := 12\<rparr>,
                              (combatant ''Aria'' (Some 2) 24 24 True)\<lparr>initiative := 12\<rparr>]"
  by (simp add: rollInitiative_tied_pair spec_initiative_sorted_def spec_initiative_before_def
      bonus_or_0_def combatant_def)

section \<open>Hit points\<close>

lemma clamp_hit_points_range:
  "0 \<le> max_hp c \<Longrightarrow> 0 \<le> clamp_hit_points c delta \<and> clamp_hit_points c delta \<le> max_hp c"
  by (simp add: clamp_hit_points_def)

text \<open>
  On a combatant with \<open>0 \<le> hp \<le> max_hp\<close> the local tracker computes the same
  values for amounts that are not negative: damage is the update by
  \<open>- damage\<close>, healing the update by \<open>healing\<close>.
\<close>

lemma tracker_hp_is_clamped_update:
  assumes "index < length (initiative_order cs)"
    and "0 \<le> hp (initiative_order cs ! index)"
    and "hp (initiative_order cs ! index) \<le> max_hp (initiative_order cs ! index)"
    and "0 \<le> amount"
  shows "map_option (\<lambda>s. hp (initiative_order s ! index)) (tracker_applyDamage index amount cs) =
           Some (clamp_hit_points (initiative_order cs ! index) (- amount))"
    and "map_option (\<lambda>s. hp (initiative_order s ! index)) (tracker_applyHealing index amount cs) =
           Some (clamp_hit_points (initiative_order cs ! index) amount)"
  using assms
  by (simp_all add: tracker_applyDamage_def tracker_applyHealing_def clamp_hit_points_def)

lemma clamp_hit_points_cases:
  assumes "0 \<le> max_hp c"
  shows "hp c + delta \<le> 0 \<longrightarrow> clamp_hit_points c delta = 0"
    and "max_hp c \<le> hp c + delta \<longrightarrow> clamp_hit_points c delta = max_hp c"
    and "0 \<le> hp c + delta \<and> hp c + delta \<le> max_hp c \<longrightarrow> clamp_hit_points c delta = hp c + delta"
  using assms by (simp_all add: clamp_hit_points_def)

lemma update_hit_points_found:
  "find (\<lambda>c. name c = ident) reg = Some c \<Longrightarrow>
   update_hit_points reg ident delta =
     Inr \<lparr>registry = map (\<lambda>d. if name d = ident then d\<lparr>hp := clamp_hit_points c delta\<rparr> else d) reg,
          hit_points = clamp_hit_points c delta,
          became_incapacitated = (hp c \<noteq> 0 \<and> clamp_hit_points c delta = 0)\<rparr>"
  by (simp add: update_hit_points_def Let_def)

lemma registry_hp:
  assumes "d \<in> set (map (\<lambda>e. if name e = ident then e\<lparr>hp := n\<rparr> else e) reg)"
    and "name d = ident"
  shows "hp d = n"
proof -
  from assms(1) have "d \<in> (\<lambda>e. if name e = ident then e\<lparr>hp := n\<rparr> else e) ` set reg"
    by (simp only: set_map)
  then obtain e where e: "d = (if name e = ident then e\<lparr>hp := n\<rparr> else e)"
    by (rule imageE)
  show ?thesis
  proof (cases "name e = ident")
    case True
    with e show ?thesis by simp
  next
    case False
    with e assms(2) show ?thesis by simp
  qed
qed

text \<open>
  C4. For a combatant of the registry with \<open>0 \<le> max_hp\<close> and any \<open>delta\<close>,
  \<^verbatim>\<open>update_hit_points\<close> returns hit points between 0 and \<open>max_hp\<close>: 0 when the
  sum falls to 0 or below, \<open>max_hp\<close> when it reaches or passes it, the sum
  otherwise. The flag \<^verbatim>\<open>became_incapacitated\<close> is set exactly when the hit
  points were not 0 before and are 0 after. Every registry entry with that id
  holds the returned value.
\<close>

theorem update_hit_points_clamped:
  assumes "find (\<lambda>c. name c = ident) reg = Some c" and "0 \<le> max_hp c"
  shows "\<exists>u. update_hit_points reg ident delta = Inr u \<and>
             0 \<le> hit_points u \<and> hit_points u \<le> max_hp c \<and>
             (became_incapacitated u \<longleftrightarrow> hp c \<noteq> 0 \<and> hit_points u = 0) \<and>
             (hp c + delta \<le> 0 \<longrightarrow> hit_points u = 0) \<and>
             (max_hp c \<le> hp c + delta \<longrightarrow> hit_points u = max_hp c) \<and>
             (0 \<le> hp c + delta \<and> hp c + delta \<le> max_hp c \<longrightarrow> hit_points u = hp c + delta) \<and>
             (\<forall>d \<in> set (registry u). name d = ident \<longrightarrow> hp d = hit_points u)"
proof -
  let ?n = "clamp_hit_points c delta"
  let ?u = "\<lparr>registry = map (\<lambda>d. if name d = ident then d\<lparr>hp := ?n\<rparr> else d) reg,
             hit_points = ?n,
             became_incapacitated = (hp c \<noteq> 0 \<and> ?n = 0)\<rparr>"
  have r: "update_hit_points reg ident delta = Inr ?u"
    using assms(1) by (rule update_hit_points_found)
  have sel: "hit_points ?u = ?n" "became_incapacitated ?u = (hp c \<noteq> 0 \<and> ?n = 0)"
    "registry ?u = map (\<lambda>d. if name d = ident then d\<lparr>hp := ?n\<rparr> else d) reg"
    by (simp_all only: HpUpdate.select_convs)
  note b = clamp_hit_points_range [OF assms(2), of delta]
  note c = clamp_hit_points_cases [OF assms(2), of delta]
  have reg: "\<forall>d \<in> set (registry ?u). name d = ident \<longrightarrow> hp d = hit_points ?u"
    unfolding sel using registry_hp [of _ ident ?n reg] by blast
  show ?thesis
  proof (intro exI conjI)
    show "update_hit_points reg ident delta = Inr ?u" by (rule r)
    show "0 \<le> hit_points ?u" "hit_points ?u \<le> max_hp c"
      unfolding sel using b by blast+
    show "became_incapacitated ?u \<longleftrightarrow> hp c \<noteq> 0 \<and> hit_points ?u = 0"
      unfolding sel by (rule refl)
    show "hp c + delta \<le> 0 \<longrightarrow> hit_points ?u = 0"
      "max_hp c \<le> hp c + delta \<longrightarrow> hit_points ?u = max_hp c"
      "0 \<le> hp c + delta \<and> hp c + delta \<le> max_hp c \<longrightarrow> hit_points ?u = hp c + delta"
      unfolding sel using c by blast+
    show "\<forall>d \<in> set (registry ?u). name d = ident \<longrightarrow> hp d = hit_points ?u" by (rule reg)
  qed
qed

theorem update_hit_points_clamped_witness:
  "find (\<lambda>c. name c = ''Goblin 1'') party = Some (combatant ''Goblin 1'' None 7 7 False) \<and>
   0 \<le> max_hp (combatant ''Goblin 1'' None 7 7 False) \<and>
   map_sum id hit_points (update_hit_points party ''Goblin 1'' (- 100)) = Inr 0 \<and>
   map_sum id became_incapacitated (update_hit_points party ''Goblin 1'' (- 100)) = Inr True \<and>
   map_sum id hit_points (update_hit_points party ''Goblin 1'' 100) = Inr 7"
proof -
  have f: "find (\<lambda>c. name c = ''Goblin 1'') party = Some (combatant ''Goblin 1'' None 7 7 False)"
    by (simp add: party_def combatant_def)
  have m: "0 \<le> max_hp (combatant ''Goblin 1'' None 7 7 False)"
    by (simp add: combatant_def)
  have h: "hp (combatant ''Goblin 1'' None 7 7 False) = 7"
    "max_hp (combatant ''Goblin 1'' None 7 7 False) = 7"
    by (simp_all add: combatant_def)
  from update_hit_points_clamped [OF f m, of "- 100"]
  obtain u where u: "update_hit_points party ''Goblin 1'' (- 100) = Inr u"
    "hp (combatant ''Goblin 1'' None 7 7 False) + - 100 \<le> 0 \<longrightarrow> hit_points u = 0"
    "became_incapacitated u \<longleftrightarrow> hp (combatant ''Goblin 1'' None 7 7 False) \<noteq> 0 \<and> hit_points u = 0"
    by blast
  from u(2,3) h have "hit_points u = 0" "became_incapacitated u" by simp_all
  with u(1)
  have a: "map_sum id hit_points (update_hit_points party ''Goblin 1'' (- 100)) = Inr 0 \<and>
    map_sum id became_incapacitated (update_hit_points party ''Goblin 1'' (- 100)) = Inr True"
    by simp
  from update_hit_points_clamped [OF f m, of 100]
  obtain w where w: "update_hit_points party ''Goblin 1'' 100 = Inr w"
    "max_hp (combatant ''Goblin 1'' None 7 7 False)
       \<le> hp (combatant ''Goblin 1'' None 7 7 False) + 100 \<longrightarrow>
     hit_points w = max_hp (combatant ''Goblin 1'' None 7 7 False)"
    by blast
  from w(2) h have "hit_points w = 7" by simp
  with w(1)
  have b: "map_sum id hit_points (update_hit_points party ''Goblin 1'' 100) = Inr 7"
    by simp
  from f m a b show ?thesis by simp
qed

section \<open>Properties of the NPC batch\<close>

lemma refresh_after_turn_log [simp]:
  "combatLog (refresh_after_turn reply st) = combatLog st"
  "logIdRef (refresh_after_turn reply st) = logIdRef st"
  by (simp_all add: refresh_after_turn_def Let_def split: sum.splits StatusReply.splits)

lemma batch_entries_Nil [simp]: "batch_entries first [] = []"
  by (simp add: batch_entries_def)

lemma batch_entries_Cons:
  "batch_entries first (t # rest) = npc_log_entry first t # batch_entries (first + 1) rest"
proof -
  have "map (\<lambda>(i, t). npc_log_entry (first + int i) t) (enumerate (Suc 0) rest) =
        map (\<lambda>(i, t). npc_log_entry (first + 1 + int i) t) (enumerate 0 rest)"
    by (simp add: enumerate_Suc_eq split_def add.commute add.left_commute)
  then show ?thesis by (simp add: batch_entries_def)
qed

lemma length_batch_entries [simp]: "length (batch_entries first ts) = length ts"
  by (simp add: batch_entries_def)

lemma delayed_Cons: "delayed (e # es) = Sleep NPC_TURN_DELAY # LogAppend e # delayed es"
  by (simp add: delayed_def)

lemma displayNPCTurn_effect:
  "displayNPCTurn cb t (st, tr) =
     (st\<lparr>logIdRef := logIdRef st + 1,
         combatLog := combatLog st @ [npc_log_entry (logIdRef st + 1) t]\<rparr>,
      tr @ [LogAppend (npc_log_entry (logIdRef st + 1) t)] @
        (if cb then [OnNPCTurn (npc_chat_message t)] else []))"
  by (simp add: displayNPCTurn_def Let_def)

lemma slowRoll_from_log:
  "combatLog (fst (slowRoll_from cb statuses i ts (st, tr))) =
     combatLog st @ batch_entries (logIdRef st + 1) ts \<and>
   logIdRef (fst (slowRoll_from cb statuses i ts (st, tr))) = logIdRef st + int (length ts) \<and>
   filter is_pacing (snd (slowRoll_from cb statuses i ts (st, tr))) =
     filter is_pacing tr @
       (if i > 0 then delayed (batch_entries (logIdRef st + 1) ts)
        else reveal_schedule (batch_entries (logIdRef st + 1) ts))"
proof (induction ts arbitrary: i st tr)
  case Nil
  show ?case by (simp add: delayed_def reveal_schedule_def)
next
  case (Cons t rest)
  let ?e = "npc_log_entry (logIdRef st + 1) t"
  let ?st1 = "st\<lparr>activeTurnName := Some (combatant_name t)\<rparr>"
  let ?tr1 = "if i > 0 then tr @ [Sleep NPC_TURN_DELAY] else tr"
  let ?st3 = "refresh_after_turn (statuses i)
      (?st1\<lparr>logIdRef := logIdRef st + 1, combatLog := combatLog st @ [?e]\<rparr>)"
  let ?tr3 = "?tr1 @ [LogAppend ?e] @ (if cb then [OnNPCTurn (npc_chat_message t)] else []) @ [GetStatus]"
  have step: "slowRoll_from cb statuses i (t # rest) (st, tr) =
      slowRoll_from cb statuses (Suc i) rest (?st3, ?tr3)"
    by (simp add: displayNPCTurn_effect Let_def)
  have l: "combatLog ?st3 = combatLog st @ [?e]" "logIdRef ?st3 = logIdRef st + 1"
    by simp_all
  have p: "filter is_pacing ?tr3 =
      filter is_pacing tr @ (if i > 0 then [Sleep NPC_TURN_DELAY] else []) @ [LogAppend ?e]"
    by (simp add: is_pacing_def)
  from Cons.IH [of "Suc i" ?st3 ?tr3] show ?case
    unfolding step l p
    by (simp add: batch_entries_Cons delayed_Cons reveal_schedule_def add.assoc)
qed

lemma count_sleeps_delayed:
  "length (filter (\<lambda>e. e = Sleep NPC_TURN_DELAY) (delayed es)) = length es"
  by (induction es) (simp_all add: delayed_def)

lemma count_sleeps_schedule:
  "length (filter (\<lambda>e. e = Sleep NPC_TURN_DELAY) (reveal_schedule es)) = length es - 1"
  by (cases es) (simp_all add: reveal_schedule_def count_sleeps_delayed)

lemma sleeps_are_pacing:
  "filter (\<lambda>e. e = Sleep NPC_TURN_DELAY) (filter is_pacing tr) =
   filter (\<lambda>e. e = Sleep NPC_TURN_DELAY) tr"
  by (induction tr) (auto simp: is_pacing_def)

lemma engine_run:
  "\<forall>k < n. continues eng (session_after eng s k) \<Longrightarrow>
   \<not> continues eng (session_after eng s n) \<Longrightarrow> n < fuel \<Longrightarrow>
   resolve_until_player_or_end eng fuel s results =
     Some (session_after eng s n, results @ map (turn_result eng s) [0 ..< n])"
proof (induction n arbitrary: s fuel results)
  case 0
  then obtain f where "fuel = Suc f" by (cases fuel) auto
  with 0 show ?case by simp
next
  case (Suc n)
  then obtain f where f: "fuel = Suc f" "n < f" by (cases fuel) auto
  let ?s2 = "advance eng (fst (resolve_one eng s))"
  from Suc.prems(1) have c0: "continues eng s"
    by (metis session_after.simps(1) zero_less_Suc)
  from Suc.prems(1) have run: "\<forall>k < n. continues eng (session_after eng ?s2 k)"
    by (metis Suc_less_eq session_after.simps(2))
  from Suc.prems(2) have stop: "\<not> continues eng (session_after eng ?s2 n)" by simp
  have rest: "map (turn_result eng s) [0 ..< Suc n] =
      snd (resolve_one eng s) # map (turn_result eng ?s2) [0 ..< n]"
    by (simp only: map_upt_Suc) (simp add: turn_result_def)
  from Suc.IH [OF run stop f(2), of "results @ [snd (resolve_one eng s)]"] c0
  show ?case
    by (simp only: f rest) (simp add: split_def Let_def)
qed

text \<open>
  C7. Engine: when the session reaches, after \<open>n\<close> resolved AI turns, the first
  turn that is not AI-controlled or the end of the combat, the resolver (given
  fuel for more than \<open>n\<close> rounds) returns the session at that point together
  with the whole batch, the results of turns \<open>0, \<dots>, n - 1\<close> in this order; it
  is a function that returns the list at once, with no effect in between.
  Caller: \<^verbatim>\<open>slowRollNPCTurns\<close> appends to the combat log exactly one entry for
  each result of the batch it is given, in batch order and with consecutive
  ids, and the only waits are one \<^verbatim>\<open>NPC_TURN_DELAY\<close> before each entry but the
  first; at the end no turn is marked as active.
\<close>

theorem npc_batch_complete_then_revealed_in_order:
  assumes "\<forall>k < n. continues eng (session_after eng s k)"
    and "\<not> continues eng (session_after eng s n)"
    and "n < fuel"
  shows "resolve_until_player_or_end eng fuel s [] =
           Some (session_after eng s n, map (turn_result eng s) [0 ..< n]) \<and>
         combatLog (fst (slowRollNPCTurns cb statuses npcTurns st)) =
           combatLog st @ batch_entries (logIdRef st + 1) npcTurns \<and>
         length (batch_entries (logIdRef st + 1) npcTurns) = length npcTurns \<and>
         (\<forall>i < length npcTurns.
            batch_entries (logIdRef st + 1) npcTurns ! i =
              npc_log_entry (logIdRef st + 1 + int i) (npcTurns ! i)) \<and>
         filter is_pacing (snd (slowRollNPCTurns cb statuses npcTurns st)) =
           reveal_schedule (batch_entries (logIdRef st + 1) npcTurns) \<and>
         length (filter (\<lambda>e. e = Sleep NPC_TURN_DELAY)
                   (snd (slowRollNPCTurns cb statuses npcTurns st))) = length npcTurns - 1 \<and>
         activeTurnName (fst (slowRollNPCTurns cb statuses npcTurns st)) = None"
proof -
  note loop = slowRoll_from_log [of cb statuses 0 npcTurns st "[]"]
  have e: "resolve_until_player_or_end eng fuel s [] =
           Some (session_after eng s n, map (turn_result eng s) [0 ..< n])"
    using engine_run [OF assms, of "[]"] by simp
  have l: "combatLog (fst (slowRollNPCTurns cb statuses npcTurns st)) =
           combatLog st @ batch_entries (logIdRef st + 1) npcTurns"
    using loop by (simp add: slowRollNPCTurns_def split_def Let_def)
  have p: "filter is_pacing (snd (slowRollNPCTurns cb statuses npcTurns st)) =
           reveal_schedule (batch_entries (logIdRef st + 1) npcTurns)"
    using loop by (simp add: slowRollNPCTurns_def split_def Let_def)
  have c: "length (filter (\<lambda>e. e = Sleep NPC_TURN_DELAY)
                   (snd (slowRollNPCTurns cb statuses npcTurns st))) = length npcTurns - 1"
    using count_sleeps_schedule [of "batch_entries (logIdRef st + 1) npcTurns"]
      sleeps_are_pacing [of "snd (slowRollNPCTurns cb statuses npcTurns st)"]
    by (simp add: p)
  have a: "activeTurnName (fst (slowRollNPCTurns cb statuses npcTurns st)) = None"
    by (simp add: slowRollNPCTurns_def split_def Let_def)
  have i: "\<forall>i < length npcTurns.
            batch_entries (logIdRef st + 1) npcTurns ! i =
              npc_log_entry (logIdRef st + 1 + int i) (npcTurns ! i)"
    by (simp add: batch_entries_def nth_enumerate_eq)
  from e l p c a i show ?thesis by simp
qed

lemma show_number_5: "show_number 5 = ''5''"
  by (simp add: show_number_def show_nat.simps)

theorem npc_batch_complete_then_revealed_in_order_witness:
  "continues queue_engine (session_after queue_engine [goblin_hit, goblin_miss] 0) \<and>
   continues queue_engine (session_after queue_engine [goblin_hit, goblin_miss] 1) \<and>
   \<not> continues queue_engine (session_after queue_engine [goblin_hit, goblin_miss] 2) \<and>
   resolve_until_player_or_end queue_engine 3 [goblin_hit, goblin_miss] [] =
     Some ([], [goblin_hit, goblin_miss]) \<and>
   map result (combatLog (fst (slowRollNPCTurns True no_status [goblin_hit, goblin_miss] encounter))) =
     [Some ''Hit! 5 damage'', Some ''Miss''] \<and>
   map entry_id (combatLog (fst (slowRollNPCTurns True no_status [goblin_hit, goblin_miss] encounter))) =
     [1, 2] \<and>
   filter is_pacing (snd (slowRollNPCTurns True no_status [goblin_hit, goblin_miss] encounter)) =
     [LogAppend (npc_log_entry 1 goblin_hit), Sleep 2500, LogAppend (npc_log_entry 2 goblin_miss)]"
proof -
  have two: "(2::nat) = Suc (Suc 0)" "[0 ..< Suc (Suc 0)] = [0, Suc 0]" by simp_all
  have s: "session_after queue_engine [goblin_hit, goblin_miss] 0 = [goblin_hit, goblin_miss]"
    "session_after queue_engine [goblin_hit, goblin_miss] (Suc 0) = [goblin_miss]"
    "session_after queue_engine [goblin_hit, goblin_miss] (Suc (Suc 0)) = []"
    by (simp_all add: queue_engine_def)
  have h1: "\<forall>k < 2. continues queue_engine (session_after queue_engine [goblin_hit, goblin_miss] k)"
    unfolding two by (simp add: less_Suc_eq s) (simp add: continues_def queue_engine_def)
  have h2: "\<not> continues queue_engine (session_after queue_engine [goblin_hit, goblin_miss] 2)"
    unfolding two s by (simp add: continues_def queue_engine_def)
  have r: "map (turn_result queue_engine [goblin_hit, goblin_miss]) [0 ..< 2] =
      [goblin_hit, goblin_miss]"
    unfolding two by (simp add: turn_result_def s) (simp add: queue_engine_def)
  have b: "batch_entries (logIdRef encounter + 1) [goblin_hit, goblin_miss] =
      [npc_log_entry 1 goblin_hit, npc_log_entry 2 goblin_miss]"
    by (simp add: batch_entries_Cons encounter_def)
  have d: "result (npc_log_entry 1 goblin_hit) = Some ''Hit! 5 damage''"
    "result (npc_log_entry 2 goblin_miss) = Some ''Miss''"
    by (simp_all add: npc_log_entry_def resultDesc_def goblin_hit_def goblin_miss_def
        show_number_5)
  have n: "entry_id (npc_log_entry 1 goblin_hit) = 1" "entry_id (npc_log_entry 2 goblin_miss) = 2"
    by (simp_all add: npc_log_entry_def)
  have c: "combatLog encounter = []" by (simp add: encounter_def)
  have h3: "(2::nat) < 3" by simp
  from npc_batch_complete_then_revealed_in_order [OF h1 h2 h3, of True no_status
      "[goblin_hit, goblin_miss]" encounter]
    h1 [unfolded two, simplified less_Suc_eq] h2 r b d n c s(3) [folded two]
  show ?thesis
    by (simp add: reveal_schedule_def delayed_def NPC_TURN_DELAY_def)
qed

section \<open>Starting combat\<close>

lemma startCombat_error:
  "combatState (fst (startCombat cb (Inl err) st)) = combatState st"
  "error (fst (startCombat cb (Inl err) st)) = Some (error_message err ''Failed to start combat'')"
  "positions (fst (startCombat cb (Inl err) st)) = positions st"
  by (simp_all add: startCombat_def Let_def)

lemma emitCombatMessage_combatState:
  "combatState (fst (emitCombatMessage cb ty msg rnd (st, tr))) = combatState st"
  by (simp add: emitCombatMessage_def Let_def)

lemma startCombat_reply:
  "map_option active (combatState (fst (startCombat cb (Inr res) st))) = Some True"
proof -
  let ?st0 = "st\<lparr>isLoading := True, error := None, combatLog := []\<rparr>"
  let ?order = "map from_start_reply (start_initiative_order res)"
  let ?idx = "findIndex (\<lambda>c. name c = current_turn res) ?order"
  let ?cs = "\<lparr>round = start_round res, initiative_order = ?order,
              current_turn_idx = (if ?idx \<ge> 0 then ?idx else 0), active = True,
              current_turn_type = None, current_is_npc = Some (start_current_is_npc res)\<rparr>"
  let ?st2 = "?st0\<lparr>combatState := Some ?cs,
                    positions := seedPositions (start_initiative_order res) (gridSize ?st0),
                    selectedToken := None\<rparr>"
  let ?e = "emitCombatMessage cb ''round_start''
              (''Combat begins! Round '' @ show_number (start_round res))
              (Some (start_round res)) (?st2, [])"
  have e: "combatState (fst ?e) = Some ?cs"
    by (simp add: emitCombatMessage_combatState)
  have "combatState (fst (startCombat cb (Inr res) st)) = combatState (fst ?e)"
    by (simp add: startCombat_def Let_def split_def split: option.splits list.splits)
  with e show ?thesis by simp
qed

lemma start_cases:
  "start phase roster started = Inr r \<Longrightarrow> 2 \<le> length roster \<and> spans_opposing_teams roster"
  "length roster < 2 \<or> \<not> spans_opposing_teams roster \<Longrightarrow>
     start phase roster started = Inl InvalidRoster"
  "2 \<le> length roster \<and> spans_opposing_teams roster \<Longrightarrow> start Setup roster started = Inr started"
  by (auto simp: start_def split: if_splits)

text \<open>
  C5. The engine starts a combat only for a roster of at least 2 combatants
  that spans two opposing teams, and for such a roster in the \<^verbatim>\<open>Setup\<close> state
  it does; for a roster with fewer than 2 combatants or with one side only it
  fails with \<^verbatim>\<open>InvalidRoster\<close>. In the hook, a press of the start button during
  set-up then stores the error and no combat state when the roster sent is of
  that kind (the positions stay as they were), and stores an active combat
  state when the roster is valid. The button itself is not rendered for fewer
  than 2 set-up combatants.
\<close>

theorem start_requires_two_opposing_teams:
  assumes "combatState st = None"
  shows "(start phase roster started = Inr r \<longrightarrow>
            2 \<le> length roster \<and> spans_opposing_teams roster) \<and>
         (length roster < 2 \<or> \<not> spans_opposing_teams roster \<longrightarrow>
            start phase roster started = Inl InvalidRoster) \<and>
         (2 \<le> length roster \<and> spans_opposing_teams roster \<longrightarrow>
            start Setup roster started = Inr started) \<and>
         (length (engine_roster st) < 2 \<or> \<not> spans_opposing_teams (engine_roster st) \<longrightarrow>
            combatState (fst (start_pressed cb started st)) = None \<and>
            error (fst (start_pressed cb started st)) = Some ''InvalidRoster'' \<and>
            positions (fst (start_pressed cb started st)) = positions st) \<and>
         (2 \<le> length (engine_roster st) \<and> spans_opposing_teams (engine_roster st) \<longrightarrow>
            map_option active (combatState (fst (start_pressed cb started st))) = Some True) \<and>
         (length (setupCombatants st) < 2 \<longrightarrow> \<not> start_offered (setupCombatants st))"
proof (intro conjI impI)
  assume "start phase roster started = Inr r"
  then show "2 \<le> length roster" "spans_opposing_teams roster"
    using start_cases(1) by blast+
next
  assume "length roster < 2 \<or> \<not> spans_opposing_teams roster"
  then show "start phase roster started = Inl InvalidRoster"
    by (rule start_cases(2))
next
  assume "2 \<le> length roster \<and> spans_opposing_teams roster"
  then show "start Setup roster started = Inr started"
    by (rule start_cases(3))
next
  assume "length (engine_roster st) < 2 \<or> \<not> spans_opposing_teams (engine_roster st)"
  then have "start Setup (engine_roster st) started = Inl InvalidRoster"
    by (rule start_cases(2))
  then have p: "start_pressed cb started st = startCombat cb (Inl (Some ''InvalidRoster'')) st"
    by (simp add: start_pressed_def surfaced_def error_name_def)
  show "combatState (fst (start_pressed cb started st)) = None"
    using assms by (simp only: p startCombat_error)
  show "error (fst (start_pressed cb started st)) = Some ''InvalidRoster''"
    by (simp only: p startCombat_error) (simp add: error_message_def)
  show "positions (fst (start_pressed cb started st)) = positions st"
    by (simp only: p startCombat_error)
next
  assume "2 \<le> length (engine_roster st) \<and> spans_opposing_teams (engine_roster st)"
  then have "start Setup (engine_roster st) started = Inr started"
    by (rule start_cases(3))
  then have p: "start_pressed cb started st = startCombat cb (Inr started) st"
    by (simp add: start_pressed_def surfaced_def)
  show "map_option active (combatState (fst (start_pressed cb started st))) = Some True"
    by (simp only: p startCombat_reply)
next
  assume "length (setupCombatants st) < 2"
  then show "\<not> start_offered (setupCombatants st)"
    by (simp add: start_offered_def)
qed

lemma engine_roster_examples:
  "length (engine_roster (setup_hook party)) = 3"
  "spans_opposing_teams (engine_roster (setup_hook party))"
  "length (engine_roster (setup_hook two_players)) = 2"
  "spans_opposing_teams (engine_roster (setup_hook two_players)) = False"
  by (simp_all add: engine_roster_def roster_of_request_def start_request_def setup_hook_def
      party_def two_players_def combatant_def truthy_def str_truthy_def
      spans_opposing_teams_def on_player_side_def)

theorem start_requires_two_opposing_teams_witness:
  "combatState (setup_hook party) = None \<and>
   combatState (setup_hook two_players) = None \<and>
   length (engine_roster (setup_hook party)) = 3 \<and>
   spans_opposing_teams (engine_roster (setup_hook party)) \<and>
   start Setup (engine_roster (setup_hook party)) party_started = Inr party_started \<and>
   map_option active (combatState (fst (start_pressed True party_started (setup_hook party)))) =
     Some True \<and>
   length (engine_roster (setup_hook two_players)) = 2 \<and>
   spans_opposing_teams (engine_roster (setup_hook two_players)) = False \<and>
   start Setup (engine_roster (setup_hook two_players)) party_started = Inl InvalidRoster \<and>
   combatState (fst (start_pressed True party_started (setup_hook two_players))) = None \<and>
   error (fst (start_pressed True party_started (setup_hook two_players))) = Some ''InvalidRoster''"
proof -
  have s: "combatState (setup_hook party) = None" "combatState (setup_hook two_players) = None"
    by (simp_all add: setup_hook_def)
  note e = engine_roster_examples
  from start_requires_two_opposing_teams
      [OF s(1), where phase = Setup and roster = "engine_roster (setup_hook party)"
        and started = party_started and cb = True]
    start_requires_two_opposing_teams
      [OF s(2), where phase = Setup and roster = "engine_roster (setup_hook two_players)"
        and started = party_started and cb = True]
    s e
  show ?thesis by simp
qed

end
